theory Spec2Isabelle
  imports Complex_Main
begin

section \<open>Strings as the page scripts see them\<close>

text \<open>
  A string is a list of code units. The whitespace class is the one shared by
  \<^verbatim>\<open>String.prototype.trim\<close> and the regular expression class \<^verbatim>\<open>\s\<close>: tab, line feed,
  vertical tab, form feed, carriage return, space and no-break space (the members of the
  class below code unit 256).
\<close>

definition is_space :: "char \<Rightarrow> bool" where
  "is_space c = (c \<in> set [CHR 0x09, CHR 0x0A, CHR 0x0B, CHR 0x0C, CHR 0x0D, CHR 0x20, CHR 0xA0])"

definition lower_char :: "char \<Rightarrow> char" where
  "lower_char c =
     (case map_of (zip ''ABCDEFGHIJKLMNOPQRSTUVWXYZ'' ''abcdefghijklmnopqrstuvwxyz'') c of
        Some l \<Rightarrow> l
      | None \<Rightarrow> c)"

definition toLowerCase :: "string \<Rightarrow> string" where
  "toLowerCase s = map lower_char s"

definition trim :: "string \<Rightarrow> string" where
  "trim s = rev (dropWhile is_space (rev (dropWhile is_space s)))"

text \<open>\<^verbatim>\<open>s.substring(0, n)\<close>\<close>

definition substring0 :: "nat \<Rightarrow> string \<Rightarrow> string" where
  "substring0 n s = take n s"

text \<open>\<^verbatim>\<open>s.replace(/\s+/g, ' ')\<close>: every maximal run of whitespace becomes one space.\<close>

function collapse_ws :: "string \<Rightarrow> string" where
  "collapse_ws [] = []"
| "collapse_ws (c # cs) =
     (if is_space c then CHR '' '' # collapse_ws (dropWhile is_space cs)
      else c # collapse_ws cs)"
  by pat_completeness auto
termination
  by (relation "measure length") (auto simp: le_imp_less_Suc length_dropWhile_le)

text \<open>\<^verbatim>\<open>v || undefined\<close> and the truthiness test on a value that is a string or absent.\<close>

fun or_undefined :: "string option \<Rightarrow> string option" where
  "or_undefined None = None"
| "or_undefined (Some s) = (if s = [] then None else Some s)"

definition truthy :: "string option \<Rightarrow> bool" where
  "truthy v = (or_undefined v \<noteq> None)"

text \<open>\<^verbatim>\<open>v || ''\<close>\<close>

fun or_empty :: "string option \<Rightarrow> string" where
  "or_empty None = []"
| "or_empty (Some s) = s"

text \<open>Decimal rendering of an index, as the template literal \<^verbatim>\<open>`el-${i}`\<close> produces it.\<close>

definition digit_char :: "nat \<Rightarrow> char" where
  "digit_char d = ''0123456789'' ! d"

function show_nat :: "nat \<Rightarrow> string" where
  "show_nat n = (if n < 10 then [digit_char n] else show_nat (n div 10) @ [digit_char (n mod 10)])"
  by pat_completeness auto
termination
  by (relation "measure id") auto

declare show_nat.simps [simp del]

section \<open>The rendered page\<close>

text \<open>
  What the extraction scripts read from an element: its tag name, its attributes
  (\<^verbatim>\<open>getAttribute\<close> gives the value or null), its text content, the \<^verbatim>\<open>type\<close> property
  (absent on elements that have none), the rectangle \<^verbatim>\<open>getBoundingClientRect()\<close> reports,
  the engine's own visibility verdict (\<^verbatim>\<open>ElementHandle.isVisible()\<close>: non-empty box and
  not hidden by style), and whether a handle to it has gone stale (evaluating against it
  throws). A page is its elements in document order, with the window's inner size.
\<close>

record Rect =
  rect_left :: rat
  rect_top :: rat
  rect_width :: rat
  rect_height :: rat

definition rect_right :: "Rect \<Rightarrow> rat" where
  "rect_right r = rect_left r + rect_width r"

definition rect_bottom :: "Rect \<Rightarrow> rat" where
  "rect_bottom r = rect_top r + rect_height r"

record Element =
  tagName :: string
  attrs :: "(string \<times> string) list"
  textContent :: string
  typeProp :: "string option"
  boundingClientRect :: Rect
  engineVisible :: bool
  detached :: bool

record Page =
  dom :: "Element list"
  innerWidth :: rat
  innerHeight :: rat

definition getAttribute :: "Element \<Rightarrow> string \<Rightarrow> string option" where
  "getAttribute e a = map_of (attrs e) a"

subsection \<open>Selectors\<close>

text \<open>
  The selectors of the source, parsed: a selector list is a disjunction of compound
  selectors, a compound selector a conjunction of simple ones. \<^verbatim>\<open>querySelectorAll\<close>
  (behind \<^verbatim>\<open>page.$$\<close> and \<^verbatim>\<open>page.$$eval\<close>) returns each matching element once, in
  document order.
\<close>

datatype simple_selector =
    Tag string
  | HasAttr string
  | AttrEq string string
  | Not simple_selector

text \<open>
  In an HTML document the value in \<^verbatim>\<open>[attr="value"]\<close> is compared without regard to ASCII
  case for the attributes HTML lists for that purpose (\<^verbatim>\<open>type\<close> among them, \<^verbatim>\<open>role\<close> and
  \<^verbatim>\<open>tabindex\<close> not), and exactly for every other attribute.
\<close>

definition CASE_INSENSITIVE_ATTRIBUTES :: "string list" where
  "CASE_INSENSITIVE_ATTRIBUTES =
     [ ''accept'', ''accept-charset'', ''align'', ''alink'', ''axis'', ''bgcolor'', ''charset'',
       ''checked'', ''clear'', ''codetype'', ''color'', ''compact'', ''declare'', ''defer'',
       ''dir'', ''direction'', ''disabled'', ''enctype'', ''face'', ''frame'', ''hreflang'',
       ''http-equiv'', ''lang'', ''language'', ''link'', ''media'', ''method'', ''multiple'',
       ''nohref'', ''noresize'', ''noshade'', ''nowrap'', ''readonly'', ''rel'', ''rev'',
       ''rules'', ''scope'', ''scrolling'', ''selected'', ''shape'', ''target'', ''text'',
       ''type'', ''valign'', ''valuetype'', ''vlink'' ]"

definition attribute_value_matches :: "string \<Rightarrow> string \<Rightarrow> string \<Rightarrow> bool" where
  "attribute_value_matches a v actual =
     (if a \<in> set CASE_INSENSITIVE_ATTRIBUTES then toLowerCase actual = toLowerCase v
      else actual = v)"

fun matches_simple :: "simple_selector \<Rightarrow> Element \<Rightarrow> bool" where
  "matches_simple (Tag t) e = (toLowerCase (tagName e) = t)"
| "matches_simple (HasAttr a) e = (getAttribute e a \<noteq> None)"
| "matches_simple (AttrEq a v) e =
     (case getAttribute e a of None \<Rightarrow> False | Some actual \<Rightarrow> attribute_value_matches a v actual)"
| "matches_simple (Not s) e = (\<not> matches_simple s e)"

type_synonym selector = "simple_selector list list"

definition matches :: "selector \<Rightarrow> Element \<Rightarrow> bool" where
  "matches sel e = list_ex (\<lambda>compound. list_all (\<lambda>s. matches_simple s e) compound) sel"

definition querySelectorAll :: "selector \<Rightarrow> Element list \<Rightarrow> Element list" where
  "querySelectorAll sel els = filter (matches sel) els"

text \<open>
  \<^verbatim>\<open>button, a[href], input:not([type="hidden"]), textarea, select, [role="button"],
  [tabindex]:not([tabindex="-1"])\<close>
\<close>

definition interactiveSelectors :: "selector list" where
  "interactiveSelectors =
     [ [[Tag ''button'']],
       [[Tag ''a'', HasAttr ''href'']],
       [[Tag ''input'', Not (AttrEq ''type'' ''hidden'')]],
       [[Tag ''textarea'']],
       [[Tag ''select'']],
       [[AttrEq ''role'' ''button'']],
       [[HasAttr ''tabindex'', Not (AttrEq ''tabindex'' ''-1'')]] ]"

definition INTERACTIVE_SELECTOR :: selector where
  "INTERACTIVE_SELECTOR = concat interactiveSelectors"

text \<open>
  \<^verbatim>\<open>a, button, input, textarea, select, [role="button"], [onclick], h1, h2, h3, p, div, span\<close>
\<close>

definition FALLBACK_SELECTOR :: selector where
  "FALLBACK_SELECTOR =
     [ [Tag ''a''], [Tag ''button''], [Tag ''input''], [Tag ''textarea''], [Tag ''select''],
       [AttrEq ''role'' ''button''], [HasAttr ''onclick''],
       [Tag ''h1''], [Tag ''h2''], [Tag ''h3''], [Tag ''p''], [Tag ''div''], [Tag ''span''] ]"

section \<open>Extracted elements\<close>

datatype Action = click | input | submit | none

record BBox =
  bbox_x :: int
  bbox_y :: int
  bbox_width :: int
  bbox_height :: int

text \<open>
  The plain object the in-page projection returns (fields prefixed \<open>raw_\<close>), and the
  \<^verbatim>\<open>ExtractedElement\<close> / \<^verbatim>\<open>BoxedElement\<close> it becomes once the selector is added (fields
  prefixed \<open>el_\<close>). \<^verbatim>\<open>attributes\<close> is a \<^verbatim>\<open>Record<string, string>\<close>: an association list.
\<close>

record RawElement =
  raw_id :: string
  raw_tag :: string
  raw_type :: "string option"
  raw_name :: "string option"
  raw_placeholder :: "string option"
  raw_text :: "string option"
  raw_href :: "string option"
  raw_action :: Action
  raw_bbox :: "BBox option"
  raw_confidence :: "rat option"
  raw_attributes :: "(string \<times> string) list"

record ExtractedElement =
  el_id :: string
  el_tag :: string
  el_type :: "string option"
  el_name :: "string option"
  el_placeholder :: "string option"
  el_text :: "string option"
  el_href :: "string option"
  el_action :: Action
  el_bbox :: "BBox option"
  el_confidence :: "rat option"
  el_attributes :: "(string \<times> string) list"
  el_selector :: string

subsection \<open>Selector synthesis\<close>

record SelectorAttrs =
  sa_id :: "string option"
  sa_dataTestid :: "string option"
  sa_ariaLabel :: "string option"
  sa_name :: "string option"
  sa_tag :: "string option"

definition generateSelector :: "SelectorAttrs \<Rightarrow> string" where
  "generateSelector a =
     (case or_undefined (sa_id a) of Some i \<Rightarrow> ''#'' @ i
      | None \<Rightarrow>
     (case or_undefined (sa_dataTestid a) of Some t \<Rightarrow> ''[data-testid=\"'' @ t @ ''\"]''
      | None \<Rightarrow>
     (case or_undefined (sa_ariaLabel a) of Some l \<Rightarrow> ''[aria-label=\"'' @ l @ ''\"]''
      | None \<Rightarrow>
     (case or_undefined (sa_name a) of Some n \<Rightarrow> ''[name=\"'' @ n @ ''\"]''
      | None \<Rightarrow>
     (case or_undefined (sa_tag a) of Some t \<Rightarrow> t | None \<Rightarrow> ''element'')))))"

definition with_selector :: "RawElement \<Rightarrow> string \<Rightarrow> ExtractedElement" where
  "with_selector r s =
     \<lparr> el_id = raw_id r, el_tag = raw_tag r, el_type = raw_type r, el_name = raw_name r,
       el_placeholder = raw_placeholder r, el_text = raw_text r, el_href = raw_href r,
       el_action = raw_action r, el_bbox = raw_bbox r, el_confidence = raw_confidence r,
       el_attributes = raw_attributes r, el_selector = s \<rparr>"

definition mapRawElement :: "RawElement \<Rightarrow> ExtractedElement" where
  "mapRawElement element =
     with_selector element
       (generateSelector
          \<lparr> sa_id = or_undefined (map_of (raw_attributes element) ''id''),
            sa_dataTestid = or_undefined (map_of (raw_attributes element) ''dataTestid''),
            sa_ariaLabel = or_undefined (map_of (raw_attributes element) ''ariaLabel''),
            sa_name = raw_name element,
            sa_tag = Some (raw_tag element) \<rparr>)"

definition mapRawElements :: "RawElement list \<Rightarrow> ExtractedElement list" where
  "mapRawElements raw = map mapRawElement raw"

subsection \<open>Structural extraction\<close>

text \<open>The action classification shared by the projections.\<close>

definition classify :: "string \<Rightarrow> string option \<Rightarrow> string option \<Rightarrow> bool \<Rightarrow> Action" where
  "classify tag role tabindex textOnly =
     (if tag = ''button'' \<or> tag = ''a'' \<or> role = Some ''button'' \<or> truthy tabindex \<or> textOnly
      then click
      else if tag = ''input'' \<or> tag = ''textarea'' \<or> tag = ''select'' then input
      else none)"

definition base_attributes :: "Element \<Rightarrow> (string \<times> string) list" where
  "base_attributes e =
     [ (''id'', or_empty (getAttribute e ''id'')),
       (''className'', or_empty (getAttribute e ''class'')),
       (''dataTestid'', or_empty (getAttribute e ''data-testid'')),
       (''ariaLabel'', or_empty (getAttribute e ''aria-label'')),
       (''role'', or_empty (getAttribute e ''role'')) ]"

text \<open>The projection \<^verbatim>\<open>(e, i) => {...}\<close> of \<^verbatim>\<open>extractElements\<close>.\<close>

definition project :: "Element \<Rightarrow> nat \<Rightarrow> RawElement" where
  "project e i =
     (let tag = toLowerCase (tagName e) in
      \<lparr> raw_id = (case or_undefined (getAttribute e ''id'') of Some v \<Rightarrow> v
                  | None \<Rightarrow> ''el-'' @ show_nat i),
        raw_tag = tag,
        raw_type = or_undefined (typeProp e),
        raw_name = or_undefined (getAttribute e ''name''),
        raw_placeholder = or_undefined (getAttribute e ''placeholder''),
        raw_text = Some (substring0 100 (trim (textContent e))),
        raw_href = or_undefined (getAttribute e ''href''),
        raw_action = classify tag (getAttribute e ''role'') (getAttribute e ''tabindex'') False,
        raw_bbox = None,
        raw_confidence = None,
        raw_attributes = base_attributes e \<rparr>)"

text \<open>\<^verbatim>\<open>els.map((e, i) => f(e, i))\<close>\<close>

definition map_indexed :: "('a \<Rightarrow> nat \<Rightarrow> 'b) \<Rightarrow> 'a list \<Rightarrow> 'b list" where
  "map_indexed f xs = map (\<lambda>(i, x). f x i) (enumerate 0 xs)"

definition extractElements :: "Page \<Rightarrow> ExtractedElement list" where
  "extractElements page =
     mapRawElements (map_indexed project (querySelectorAll INTERACTIVE_SELECTOR (dom page)))"

subsection \<open>Structural extraction, element-by-element variant\<close>

text \<open>
  The older variant of \<^verbatim>\<open>extractElements\<close>: one \<^verbatim>\<open>page.$$\<close> query per taxonomy entry, and
  for each handle an in-page evaluation, the engine's visibility test, and a push onto
  \<^verbatim>\<open>elements\<close>. A stale handle makes the evaluation throw; the \<^verbatim>\<open>catch\<close> skips the element.
  Here \<^verbatim>\<open>getAttr\<close> turns null into undefined and keeps every string.
\<close>

definition legacy_record :: "Element \<Rightarrow> nat \<Rightarrow> ExtractedElement" where
  "legacy_record el n =
     (let tag = toLowerCase (tagName el);
          selector = generateSelector
            \<lparr> sa_id = getAttribute el ''id'',
              sa_dataTestid = getAttribute el ''data-testid'',
              sa_ariaLabel = getAttribute el ''aria-label'',
              sa_name = getAttribute el ''name'',
              sa_tag = Some tag \<rparr>;
          action = classify tag (getAttribute el ''role'') (getAttribute el ''tabindex'') False
      in \<lparr> el_id = (case or_undefined (getAttribute el ''id'') of Some v \<Rightarrow> v
                     | None \<Rightarrow> ''el-'' @ show_nat n),
           el_tag = tag,
           el_type = or_undefined (typeProp el),
           el_name = getAttribute el ''name'',
           el_placeholder = getAttribute el ''placeholder'',
           el_text = Some (substring0 100 (trim (textContent el))),
           el_href = getAttribute el ''href'',
           el_action = action,
           el_bbox = None,
           el_confidence = None,
           el_attributes =
             [ (''className'', or_empty (getAttribute el ''class'')),
               (''dataTestid'', or_empty (getAttribute el ''data-testid'')),
               (''ariaLabel'', or_empty (getAttribute el ''aria-label'')),
               (''role'', or_empty (getAttribute el ''role'')) ],
           el_selector = selector \<rparr>)"

text \<open>
  One turn of the inner loop: the record is built with \<^verbatim>\<open>elements.length\<close> as the ordinal
  and pushed if the engine reports the element visible.
\<close>

definition extractElements_legacy_step :: "ExtractedElement list \<Rightarrow> Element \<Rightarrow> ExtractedElement list" where
  "extractElements_legacy_step elements el =
     (if detached el then elements
      else if \<not> engineVisible el then elements
      else elements @ [legacy_record el (length elements)])"

definition extractElements_legacy :: "Page \<Rightarrow> ExtractedElement list" where
  "extractElements_legacy page =
     foldl (\<lambda>elements selector.
              foldl extractElements_legacy_step elements (querySelectorAll selector (dom page)))
       [] interactiveSelectors"

subsection \<open>Visual scan\<close>

text \<open>The geometric test of \<^verbatim>\<open>collect\<close>, with \<open>vw\<close>, \<open>vh\<close> the window's inner size.\<close>

definition visible :: "rat \<Rightarrow> rat \<Rightarrow> Rect \<Rightarrow> bool" where
  "visible vw vh rect =
     (rect_width rect > 8 \<and> rect_height rect > 8 \<and> rect_bottom rect > 0 \<and> rect_right rect > 0
      \<and> rect_left rect < vw \<and> rect_top rect < vh)"

definition normalized_text :: "Element \<Rightarrow> string" where
  "normalized_text e = substring0 120 (collapse_ws (trim (textContent e)))"

text \<open>The projection of \<^verbatim>\<open>collect\<close>; \<open>None\<close> is its \<^verbatim>\<open>null\<close>.\<close>

definition collect_project :: "rat \<Rightarrow> bool \<Rightarrow> rat \<Rightarrow> rat \<Rightarrow> Element \<Rightarrow> nat \<Rightarrow> RawElement option" where
  "collect_project conf textOnly vw vh e i =
     (let rect = boundingClientRect e in
      if \<not> visible vw vh rect then None
      else
        let text = normalized_text e in
        if textOnly \<and> length text < 2 then None
        else
          let tag = toLowerCase (tagName e) in
          Some \<lparr> raw_id = (case or_undefined (getAttribute e ''id'') of Some v \<Rightarrow> v
                          | None \<Rightarrow> ''el-'' @ show_nat i),
                 raw_tag = tag,
                 raw_type = or_undefined (typeProp e),
                 raw_name = or_undefined (getAttribute e ''name''),
                 raw_placeholder = or_undefined (getAttribute e ''placeholder''),
                 raw_text = Some text,
                 raw_href = or_undefined (getAttribute e ''href''),
                 raw_action =
                   classify tag (getAttribute e ''role'') (getAttribute e ''tabindex'') textOnly,
                 raw_bbox = Some \<lparr> bbox_x = max 0 (round (rect_left rect)),
                                   bbox_y = max 0 (round (rect_top rect)),
                                   bbox_width = round (rect_width rect),
                                   bbox_height = round (rect_height rect) \<rparr>,
                 raw_confidence = Some conf,
                 raw_attributes = base_attributes e \<rparr>)"

text \<open>\<^verbatim>\<open>.filter(Boolean)\<close> on a list of objects and nulls.\<close>

primrec filter_Boolean :: "'a option list \<Rightarrow> 'a list" where
  "filter_Boolean [] = []"
| "filter_Boolean (x # xs) = (case x of None \<Rightarrow> filter_Boolean xs | Some v \<Rightarrow> v # filter_Boolean xs)"

definition collect :: "selector \<Rightarrow> rat \<Rightarrow> bool \<Rightarrow> Page \<Rightarrow> RawElement list" where
  "collect sel confidence includeTextOnly page =
     filter_Boolean
       (map_indexed (collect_project confidence includeTextOnly (innerWidth page) (innerHeight page))
          (querySelectorAll sel (dom page)))"

definition extractVisibleElementsWithBoxes :: "Page \<Rightarrow> ExtractedElement list" where
  "extractVisibleElementsWithBoxes page =
     (let raw = collect INTERACTIVE_SELECTOR (85 / 100) False page in
      if raw = [] then mapRawElements (take 50 (collect FALLBACK_SELECTOR (55 / 100) True page))
      else mapRawElements raw)"

text \<open>
  The overlap of a rectangle with the viewport \<open>[0, vw) \<times> [0, vh)\<close>, as the extent of the
  intersection on each axis.
\<close>

definition overlap_width :: "rat \<Rightarrow> Rect \<Rightarrow> rat" where
  "overlap_width vw rect = min (rect_right rect) vw - max (rect_left rect) 0"

definition overlap_height :: "rat \<Rightarrow> Rect \<Rightarrow> rat" where
  "overlap_height vh rect = min (rect_bottom rect) vh - max (rect_top rect) 0"

definition outside_viewport :: "rat \<Rightarrow> rat \<Rightarrow> Rect \<Rightarrow> bool" where
  "outside_viewport vw vh rect = (overlap_width vw rect \<le> 0 \<or> overlap_height vh rect \<le> 0)"

section \<open>Fingerprint tables and the browser manager\<close>

datatype error = Error string

record Viewport =
  vp_width :: nat
  vp_height :: nat

record StealthOptions =
  proxy :: "string option"
  userAgent :: "string option"
  rotateUA :: "bool option"
  viewport :: "Viewport option"

definition USER_AGENTS :: "string list" where
  "USER_AGENTS =
     [ ''Mozilla/5.0 (Windows NT 10.0; Win64; x64) AppleWebKit/537.36 (KHTML, like Gecko) Chrome/120.0.0.0 Safari/537.36'',
       ''Mozilla/5.0 (Macintosh; Intel Mac OS X 10_15_7) AppleWebKit/537.36 (KHTML, like Gecko) Chrome/120.0.0.0 Safari/537.36'',
       ''Mozilla/5.0 (Windows NT 10.0; Win64; x64; rv:121.0) Gecko/20100101 Firefox/121.0'',
       ''Mozilla/5.0 (Macintosh; Intel Mac OS X 10_15_7) AppleWebKit/605.1.15 (KHTML, like Gecko) Version/17.2 Safari/605.1.15'' ]"

definition VIEWPORTS :: "Viewport list" where
  "VIEWPORTS =
     [ \<lparr> vp_width = 1920, vp_height = 1080 \<rparr>,
       \<lparr> vp_width = 1440, vp_height = 900 \<rparr>,
       \<lparr> vp_width = 1366, vp_height = 768 \<rparr>,
       \<lparr> vp_width = 1280, vp_height = 720 \<rparr> ]"

record ContextOptions =
  co_viewport :: "Viewport option"
  co_userAgent :: "string option"
  co_locale :: string
  co_timezoneId :: string
  co_colorScheme :: string
  co_extraHTTPHeaders :: "(string \<times> string) list"

text \<open>
  The calls the manager makes on the engine, in the order it makes them. Browser handles
  and context handles are numbers, handed out fresh by the engine.
\<close>

datatype event =
    LaunchCall "string option"
  | NewContextCall nat ContextOptions
  | AddInitScriptCall nat
  | NewPageCall nat
  | WorkCall nat
  | ContextCloseCall nat
  | BrowserCloseCall nat

text \<open>
  An \<^verbatim>\<open>async\<close> function runs synchronously up to its first \<^verbatim>\<open>await\<close>; what follows the
  \<^verbatim>\<open>await\<close> runs later, once the awaited promise has settled. The only continuation that
  is ever left behind by a caller that does not await is the tail of \<^verbatim>\<open>close()\<close>.
\<close>

datatype task = AfterBrowserClose

text \<open>
  The state: the two fields of \<^verbatim>\<open>BrowserManager\<close>, the two module-level cursors, the
  engine's next fresh handle, the calls made so far, and the continuations not yet run.
\<close>

record Manager =
  browser :: "nat option"
  options :: StealthOptions
  uaIndex :: nat
  viewportIndex :: nat
  next_handle :: nat
  trace :: "event list"
  pending :: "task list"

definition initial_manager :: Manager where
  "initial_manager =
     \<lparr> browser = None,
       options = \<lparr> proxy = None, userAgent = None, rotateUA = None, viewport = None \<rparr>,
       uaIndex = 0, viewportIndex = 0, next_handle = 0, trace = [], pending = [] \<rparr>"

text \<open>Reading a table past its end gives \<^verbatim>\<open>undefined\<close>.\<close>

definition at_index :: "'a list \<Rightarrow> nat \<Rightarrow> 'a option" where
  "at_index xs i = (if i < length xs then Some (xs ! i) else None)"

definition getNextUserAgent :: "Manager \<Rightarrow> string option \<times> Manager" where
  "getNextUserAgent s =
     (let ua = at_index USER_AGENTS (uaIndex s)
      in (ua, s\<lparr>uaIndex := (uaIndex s + 1) mod length USER_AGENTS\<rparr>))"

definition getNextViewport :: "Manager \<Rightarrow> Viewport option \<times> Manager" where
  "getNextViewport s =
     (let vp = at_index VIEWPORTS (viewportIndex s)
      in (vp, s\<lparr>viewportIndex := (viewportIndex s + 1) mod length VIEWPORTS\<rparr>))"

text \<open>
  What the engine answers during one \<^verbatim>\<open>withPage\<close> call: for each engine call that can
  fail, the error it throws, if any.
\<close>

record Engine =
  launch_error :: "error option"
  newContext_error :: "error option"
  addInitScript_error :: "error option"
  newPage_error :: "error option"
  contextClose_error :: "error option"

definition getBrowser :: "Engine \<Rightarrow> Manager \<Rightarrow> (error + nat) \<times> Manager" where
  "getBrowser eng s =
     (case browser s of
        Some b \<Rightarrow> (Inr b, s)
      | None \<Rightarrow>
          (let s1 = s\<lparr>trace := trace s @ [LaunchCall (or_undefined (proxy (options s)))]\<rparr>
           in case launch_error eng of
                Some err \<Rightarrow> (Inl err, s1)
              | None \<Rightarrow>
                  (Inr (next_handle s1),
                   s1\<lparr>browser := Some (next_handle s1), next_handle := Suc (next_handle s1)\<rparr>)))"

definition effectiveUserAgent :: "Manager \<Rightarrow> string option \<times> Manager" where
  "effectiveUserAgent s =
     (if \<not> truthy (userAgent (options s)) \<and> rotateUA (options s) = Some True
      then getNextUserAgent s
      else (userAgent (options s), s))"

definition effectiveViewport :: "Manager \<Rightarrow> Viewport option \<times> Manager" where
  "effectiveViewport s =
     (case viewport (options s) of Some v \<Rightarrow> (Some v, s) | None \<Rightarrow> getNextViewport s)"

definition contextOptions :: "Viewport option \<Rightarrow> string option \<Rightarrow> ContextOptions" where
  "contextOptions vp ua =
     \<lparr> co_viewport = vp, co_userAgent = ua, co_locale = ''en-US'',
       co_timezoneId = ''America/Los_Angeles'', co_colorScheme = ''light'',
       co_extraHTTPHeaders =
         [ (''Accept-Language'', ''en-US,en;q=0.9''),
           (''Accept'', ''text/html,application/xhtml+xml,application/xml;q=0.9,*/*;q=0.8''),
           (''Cache-Control'', ''no-cache, no-store, must-revalidate''),
           (''Pragma'', ''no-cache''),
           (''Expires'', ''0''),
           (''Sec-Fetch-Dest'', ''document''),
           (''Sec-Fetch-Mode'', ''navigate''),
           (''Sec-Fetch-Site'', ''none''),
           (''Sec-Fetch-User'', ''?1''),
           (''Upgrade-Insecure-Requests'', ''1'') ] \<rparr>"

text \<open>
  \<^verbatim>\<open>withPage\<close>, awaited to its end. The work function receives the page of the new context
  (named by the context's handle) and returns a value or throws; every caller in the
  source passes a closure that uses only that page. The \<^verbatim>\<open>try\<close> begins after the page is
  opened, and the \<^verbatim>\<open>finally\<close> closes the context; an error thrown by that close replaces
  the outcome of the work function.
\<close>

definition withPage :: "Engine \<Rightarrow> (nat \<Rightarrow> error + 'a) \<Rightarrow> Manager \<Rightarrow> (error + 'a) \<times> Manager" where
  "withPage eng fn s0 =
     (case getBrowser eng s0 of
        (Inl err, s1) \<Rightarrow> (Inl err, s1)
      | (Inr b, s1) \<Rightarrow>
          (case effectiveUserAgent s1 of (ua, s2) \<Rightarrow>
          (case effectiveViewport s2 of (vp, s3) \<Rightarrow>
            (let s4 = s3\<lparr>trace := trace s3 @ [NewContextCall b (contextOptions vp ua)]\<rparr>
             in case newContext_error eng of
                  Some err \<Rightarrow> (Inl err, s4)
                | None \<Rightarrow>
                   (let c = next_handle s4;
                        s5 = s4\<lparr>next_handle := Suc c, trace := trace s4 @ [AddInitScriptCall c]\<rparr>
                    in case addInitScript_error eng of
                         Some err \<Rightarrow> (Inl err, s5)
                       | None \<Rightarrow>
                          (let s6 = s5\<lparr>trace := trace s5 @ [NewPageCall c]\<rparr>
                           in case newPage_error eng of
                                Some err \<Rightarrow> (Inl err, s6)
                              | None \<Rightarrow>
                                 (let r = fn c;
                                      s7 = s6\<lparr>trace := trace s6 @ [WorkCall c, ContextCloseCall c]\<rparr>
                                  in case contextClose_error eng of
                                       Some err \<Rightarrow> (Inl err, s7)
                                     | None \<Rightarrow> (r, s7))))))))"

text \<open>
  \<^verbatim>\<open>close()\<close> in two parts: up to \<^verbatim>\<open>await this.browser.close()\<close>, where the engine call is
  made and the rest is left pending; and the rest, \<^verbatim>\<open>this.browser = null\<close>, which runs once
  the engine's close has resolved (and never if it rejects).
\<close>

definition close_begin :: "Manager \<Rightarrow> Manager" where
  "close_begin s =
     (case browser s of
        None \<Rightarrow> s
      | Some b \<Rightarrow> s\<lparr>trace := trace s @ [BrowserCloseCall b], pending := pending s @ [AfterBrowserClose]\<rparr>)"

definition run_pending :: "bool \<Rightarrow> Manager \<Rightarrow> Manager" where
  "run_pending resolved s =
     (case pending s of
        [] \<Rightarrow> s
      | AfterBrowserClose # rest \<Rightarrow>
          (if resolved then s\<lparr>browser := None, pending := rest\<rparr> else s\<lparr>pending := rest\<rparr>))"

text \<open>
  \<^verbatim>\<open>setOptions\<close> is not \<^verbatim>\<open>async\<close> and calls \<^verbatim>\<open>this.close()\<close> without awaiting it: it returns when
  \<^verbatim>\<open>close()\<close> has reached its \<^verbatim>\<open>await\<close>.
\<close>

definition setOptions :: "StealthOptions \<Rightarrow> Manager \<Rightarrow> Manager" where
  "setOptions opts s =
     (let s1 = s\<lparr>options := opts\<rparr>
      in if browser s1 \<noteq> None then close_begin s1 else s1)"

text \<open>Consecutive sessions, and the user-agents their contexts were asked for.\<close>

fun withPage_each :: "(Engine \<times> (nat \<Rightarrow> error + 'a)) list \<Rightarrow> Manager \<Rightarrow> Manager" where
  "withPage_each [] s = s"
| "withPage_each ((eng, fn) # rest) s = withPage_each rest (snd (withPage eng fn s))"

fun issued_userAgents :: "event list \<Rightarrow> string option list" where
  "issued_userAgents [] = []"
| "issued_userAgents (NewContextCall b opts # evs) = co_userAgent opts # issued_userAgents evs"
| "issued_userAgents (ev # evs) = issued_userAgents evs"

definition events_since :: "Manager \<Rightarrow> Manager \<Rightarrow> event list" where
  "events_since s s' = drop (length (trace s)) (trace s')"

section \<open>The scan endpoint\<close>

text \<open>
  What the work function of \<^verbatim>\<open>/scan-screenshot\<close> returns, and the response the handler
  builds from it. A field the JSON body does not carry is \<open>None\<close>.
\<close>

record Scan =
  scan_status :: "int option"
  scan_finalUrl :: string
  scan_title :: "string option"
  scan_elements :: "ExtractedElement list"
  scan_screenshot :: string
  scan_timeoutMs :: rat
  scan_viewport :: "Viewport option"

record Response =
  http_status :: int
  body_ok :: bool
  body_blocked :: "bool option"
  body_url :: "string option"
  body_finalUrl :: "string option"
  body_status :: "int option"
  body_title :: "string option"
  body_screenshot :: "string option"
  body_elements :: "ExtractedElement list option"
  body_count :: "nat option"
  body_timeoutMs :: "rat option"
  body_viewport :: "Viewport option"
  body_error :: "string option"

text \<open>
  \<^verbatim>\<open>/access denied|forbidden|captcha|attention required/i.test(t)\<close>: some alternative occurs
  in \<open>t\<close>, letters compared without case.
\<close>

fun starts_with :: "string \<Rightarrow> string \<Rightarrow> bool" where
  "starts_with [] t = True"
| "starts_with (p # ps) [] = False"
| "starts_with (p # ps) (c # cs) = (p = c \<and> starts_with ps cs)"

fun occurs_in :: "string \<Rightarrow> string \<Rightarrow> bool" where
  "occurs_in p [] = (p = [])"
| "occurs_in p (c # cs) = (starts_with p (c # cs) \<or> occurs_in p cs)"

definition BLOCKED_TITLE_ALTERNATIVES :: "string list" where
  "BLOCKED_TITLE_ALTERNATIVES = [''access denied'', ''forbidden'', ''captcha'', ''attention required'']"

definition blocked_title_test :: "string \<Rightarrow> bool" where
  "blocked_title_test t = list_ex (\<lambda>p. occurs_in p (toLowerCase t)) BLOCKED_TITLE_ALTERNATIVES"

definition blockedByStatus :: "Scan \<Rightarrow> bool" where
  "blockedByStatus scan =
     (scan_status scan = Some 401 \<or> scan_status scan = Some 403 \<or> scan_status scan = Some 429)"

definition blockedByTitle :: "Scan \<Rightarrow> bool" where
  "blockedByTitle scan = blocked_title_test (or_empty (scan_title scan))"

text \<open>
  The handler from the point where \<^verbatim>\<open>withPage\<close> has settled: an error goes to the
  \<^verbatim>\<open>catch\<close> (status 500), a scan through the three branches.
\<close>

definition scan_response :: "string \<Rightarrow> error + Scan \<Rightarrow> Response" where
  "scan_response targetUrl outcome =
     (case outcome of
        Inl (Error message) \<Rightarrow>
          \<lparr> http_status = 500, body_ok = False, body_blocked = None, body_url = None,
            body_finalUrl = None, body_status = None, body_title = None, body_screenshot = None,
            body_elements = None, body_count = None, body_timeoutMs = None, body_viewport = None,
            body_error = Some message \<rparr>
      | Inr scan \<Rightarrow>
          if blockedByStatus scan \<or> blockedByTitle scan then
            \<lparr> http_status = 422, body_ok = False, body_blocked = Some True,
              body_url = Some targetUrl, body_finalUrl = Some (scan_finalUrl scan),
              body_status = scan_status scan, body_title = scan_title scan,
              body_screenshot = None, body_elements = Some [], body_count = Some 0,
              body_timeoutMs = Some (scan_timeoutMs scan), body_viewport = scan_viewport scan,
              body_error = Some ''Target site blocked access (403/anti-bot). Screenshot results are hidden for this page.'' \<rparr>
          else if scan_elements scan = [] then
            \<lparr> http_status = 422, body_ok = False, body_blocked = None,
              body_url = Some targetUrl, body_finalUrl = Some (scan_finalUrl scan),
              body_status = scan_status scan, body_title = scan_title scan,
              body_screenshot = Some (scan_screenshot scan), body_elements = Some [],
              body_count = Some 0,
              body_timeoutMs = Some (scan_timeoutMs scan), body_viewport = scan_viewport scan,
              body_error = Some ''Screenshot scan found no visible interactive elements.'' \<rparr>
          else
            \<lparr> http_status = 200, body_ok = True, body_blocked = None,
              body_url = Some targetUrl, body_finalUrl = Some (scan_finalUrl scan),
              body_status = scan_status scan, body_title = scan_title scan,
              body_screenshot = Some (scan_screenshot scan),
              body_elements = Some (scan_elements scan),
              body_count = Some (length (scan_elements scan)),
              body_timeoutMs = Some (scan_timeoutMs scan), body_viewport = scan_viewport scan,
              body_error = None \<rparr>)"

text \<open>
  The selector the priority rule names for a DOM element: the id, else the
  \<^verbatim>\<open>data-testid\<close> attribute, else the \<^verbatim>\<open>aria-label\<close> attribute, else the \<^verbatim>\<open>name\<close>
  attribute, else the tag name. An attribute counts when it is present and not empty.
\<close>

definition priority_selector :: "Element \<Rightarrow> string" where
  "priority_selector e =
     (if truthy (getAttribute e ''id'') then ''#'' @ or_empty (getAttribute e ''id'')
      else if truthy (getAttribute e ''data-testid'')
        then ''[data-testid=\"'' @ or_empty (getAttribute e ''data-testid'') @ ''\"]''
      else if truthy (getAttribute e ''aria-label'')
        then ''[aria-label=\"'' @ or_empty (getAttribute e ''aria-label'') @ ''\"]''
      else if truthy (getAttribute e ''name'')
        then ''[name=\"'' @ or_empty (getAttribute e ''name'') @ ''\"]''
      else toLowerCase (tagName e))"

text \<open>
  The elements the element-by-element variant keeps, category by category: the matches of
  each taxonomy entry, in document order, that are still attached and engine-visible.
\<close>

definition legacy_sources :: "Page \<Rightarrow> Element list" where
  "legacy_sources page =
     concat (map (\<lambda>selector. filter (\<lambda>e. \<not> detached e \<and> engineVisible e)
                                 (querySelectorAll selector (dom page)))
               interactiveSelectors)"

text \<open>
  Text in which every whitespace character is a plain space and no two of them are
  adjacent.
\<close>

fun single_spaced :: "string \<Rightarrow> bool" where
  "single_spaced [] = True"
| "single_spaced [c] = (is_space c \<longrightarrow> c = CHR '' '')"
| "single_spaced (c # d # cs) =
     ((is_space c \<longrightarrow> c = CHR '' '' \<and> \<not> is_space d) \<and> single_spaced (d # cs))"

section \<open>Example inputs\<close>

definition element :: "string \<Rightarrow> (string \<times> string) list \<Rightarrow> string \<Rightarrow> string option \<Rightarrow> Element" where
  "element t a txt ty =
     \<lparr> tagName = t, attrs = a, textContent = txt, typeProp = ty,
       boundingClientRect = \<lparr> rect_left = 10, rect_top = 10, rect_width = 100, rect_height = 20 \<rparr>,
       engineVisible = True, detached = False \<rparr>"

definition page_of :: "Element list \<Rightarrow> Page" where
  "page_of els = \<lparr> dom = els, innerWidth = 1280, innerHeight = 720 \<rparr>"

definition button_go_page :: Page where
  "button_go_page = page_of [element ''BUTTON'' [(''id'', ''go'')] ''Go'' (Some ''submit'')]"

definition input_q_page :: Page where
  "input_q_page = page_of [element ''INPUT'' [(''name'', ''q'')] [] (Some ''text'')]"

definition cloudflare_scan :: Scan where
  "cloudflare_scan =
     \<lparr> scan_status = Some 200, scan_finalUrl = ''https://example.com/'',
       scan_title = Some ''Attention Required! | CloudFlare'',
       scan_elements = extractVisibleElementsWithBoxes button_go_page,
       scan_screenshot = ''iVBORw0KGgo='', scan_timeoutMs = 30000,
       scan_viewport = Some \<lparr> vp_width = 1280, vp_height = 720 \<rparr> \<rparr>"

definition no_response_scan :: Scan where
  "no_response_scan =
     \<lparr> scan_status = None, scan_finalUrl = ''about:blank'', scan_title = Some [],
       scan_elements = extractVisibleElementsWithBoxes button_go_page,
       scan_screenshot = ''iVBORw0KGgo='', scan_timeoutMs = 30000,
       scan_viewport = Some \<lparr> vp_width = 1280, vp_height = 720 \<rparr> \<rparr>"

definition hidden_button_page :: Page where
  "hidden_button_page =
     page_of [(element ''BUTTON'' [(''style'', ''display:none'')] ''Hidden'' (Some ''submit''))
                \<lparr> boundingClientRect :=
                    \<lparr> rect_left = 0, rect_top = 0, rect_width = 0, rect_height = 0 \<rparr>,
                  engineVisible := False \<rparr>]"

definition link_then_button_page :: Page where
  "link_then_button_page =
     page_of [element ''A'' [(''href'', ''/next'')] ''Next'' (Some []),
              element ''BUTTON'' [] ''Go'' (Some ''submit'')]"

definition paragraph_page :: Page where
  "paragraph_page = page_of [element ''P'' [] ''Click  here to   continue'' None]"

definition mixed_page :: Page where
  "mixed_page =
     page_of [element ''BUTTON'' [(''id'', ''go'')] ''Go'' (Some ''submit''),
              (element ''P'' [] ''Left of the window'' None)
                \<lparr> boundingClientRect :=
                    \<lparr> rect_left = -200, rect_top = 10, rect_width = 200, rect_height = 20 \<rparr> \<rparr>]"

definition hidden_then_visible_page :: Page where
  "hidden_then_visible_page =
     page_of [(element ''BUTTON'' [(''id'', ''hid''), (''style'', ''display:none'')] ''Hidden''
                 (Some ''submit''))
                \<lparr> boundingClientRect :=
                    \<lparr> rect_left = 0, rect_top = 0, rect_width = 0, rect_height = 0 \<rparr>,
                  engineVisible := False \<rparr>,
              element ''BUTTON'' [(''id'', ''vis'')] ''Shown'' (Some ''submit'')]"

definition upper_hidden_input_page :: Page where
  "upper_hidden_input_page =
     page_of [element ''INPUT'' [(''type'', ''HIDDEN''), (''name'', ''tok'')] [] (Some ''hidden''),
              element ''INPUT'' [(''name'', ''u'')] [] (Some ''text'')]"

definition quiet_engine :: Engine where
  "quiet_engine =
     \<lparr> launch_error = None, newContext_error = None, addInitScript_error = None,
       newPage_error = None, contextClose_error = None \<rparr>"

definition rotating_manager :: Manager where
  "rotating_manager =
     initial_manager\<lparr>options :=
       \<lparr> proxy = None, userAgent = None, rotateUA = Some True, viewport = None \<rparr>\<rparr>"

definition addInitScript_failing_engine :: Engine where
  "addInitScript_failing_engine =
     quiet_engine\<lparr>addInitScript_error := Some (Error ''Target closed'')\<rparr>"

definition newPage_failing_engine :: Engine where
  "newPage_failing_engine = quiet_engine\<lparr>newPage_error := Some (Error ''Target closed'')\<rparr>"

definition returning_work :: "nat \<Rightarrow> error + unit" where
  "returning_work page = Inr ()"

definition throwing_work :: "nat \<Rightarrow> error + unit" where
  "throwing_work page = Inl (Error ''boom'')"

definition live_manager :: Manager where
  "live_manager = snd (getBrowser quiet_engine initial_manager)"

definition new_options :: StealthOptions where
  "new_options =
     \<lparr> proxy = Some ''http://127.0.0.1:8080'', userAgent = None, rotateUA = Some False,
       viewport = None \<rparr>"

section \<open>Properties of selector synthesis\<close>

lemma length_map_indexed: "length (map_indexed f xs) = length xs"
  by (simp add: map_indexed_def)

lemma nth_map_indexed: "i < length xs \<Longrightarrow> map_indexed f xs ! i = f (xs ! i) i"
  by (simp add: map_indexed_def nth_enumerate_eq)

lemma length_extractElements:
  "length (extractElements page) = length (querySelectorAll INTERACTIVE_SELECTOR (dom page))"
  by (simp add: extractElements_def mapRawElements_def length_map_indexed)

lemma nth_extractElements:
  "i < length (querySelectorAll INTERACTIVE_SELECTOR (dom page)) \<Longrightarrow>
     extractElements page ! i =
       mapRawElement (project (querySelectorAll INTERACTIVE_SELECTOR (dom page) ! i) i)"
  by (simp add: extractElements_def mapRawElements_def length_map_indexed nth_map_indexed)

lemma mapRawElement_project_selector:
  "tagName e \<noteq> [] \<Longrightarrow> el_selector (mapRawElement (project e i)) = priority_selector e"
  by (cases "getAttribute e ''id''"; cases "getAttribute e ''data-testid''";
      cases "getAttribute e ''aria-label''"; cases "getAttribute e ''name''")
     (simp_all add: mapRawElement_def project_def with_selector_def generateSelector_def
      base_attributes_def Let_def priority_selector_def truthy_def toLowerCase_def)

text \<open>
  C8. Every record of structural extraction carries the selector the priority rule names
  for its element (id, else data-testid, else aria-label, else name, else the tag name;
  every DOM element has a tag name). A button with id "go" gives selector "#go", action
  click, tag "button"; an input with only name "q" gives selector [name="q"], action input.
\<close>

theorem selector_synthesis_priority:
  "(i < length (querySelectorAll INTERACTIVE_SELECTOR (dom page))
      \<and> tagName (querySelectorAll INTERACTIVE_SELECTOR (dom page) ! i) \<noteq> [] \<longrightarrow>
      el_selector (extractElements page ! i)
        = priority_selector (querySelectorAll INTERACTIVE_SELECTOR (dom page) ! i))
   \<and> map (\<lambda>el. (el_selector el, el_action el, el_tag el)) (extractElements button_go_page)
        = [(''#go'', click, ''button'')]
   \<and> map (\<lambda>el. (el_selector el, el_action el, el_tag el)) (extractElements input_q_page)
        = [(''[name=\"q\"]'', input, ''input'')]"
proof -
  have general: "i < length (querySelectorAll INTERACTIVE_SELECTOR (dom page))
      \<and> tagName (querySelectorAll INTERACTIVE_SELECTOR (dom page) ! i) \<noteq> [] \<longrightarrow>
      el_selector (extractElements page ! i)
        = priority_selector (querySelectorAll INTERACTIVE_SELECTOR (dom page) ! i)"
    by (simp add: nth_extractElements mapRawElement_project_selector)
  have button: "map (\<lambda>el. (el_selector el, el_action el, el_tag el)) (extractElements button_go_page)
        = [(''#go'', click, ''button'')]"
    by code_simp
  have inp: "map (\<lambda>el. (el_selector el, el_action el, el_tag el)) (extractElements input_q_page)
        = [(''[name=\"q\"]'', input, ''input'')]"
    by code_simp
  from general button inp show ?thesis by blast
qed

theorem selector_synthesis_priority_witness:
  "0 < length (querySelectorAll INTERACTIVE_SELECTOR (dom input_q_page))
   \<and> tagName (querySelectorAll INTERACTIVE_SELECTOR (dom input_q_page) ! 0) \<noteq> []
   \<and> el_selector (extractElements input_q_page ! 0) = ''[name=\"q\"]''"
proof -
  have len: "0 < length (querySelectorAll INTERACTIVE_SELECTOR (dom input_q_page))"
    by code_simp
  have tag: "tagName (querySelectorAll INTERACTIVE_SELECTOR (dom input_q_page) ! 0) \<noteq> []"
    by code_simp
  have sel: "priority_selector (querySelectorAll INTERACTIVE_SELECTOR (dom input_q_page) ! 0)
      = ''[name=\"q\"]''"
    by code_simp
  from selector_synthesis_priority [of 0 input_q_page] len tag sel show ?thesis
    by simp
qed

section \<open>Properties of the blocked-page judgment\<close>

lemma starts_with_iff: "starts_with p t \<longleftrightarrow> (\<exists>post. t = p @ post)"
  by (induction p t rule: starts_with.induct) auto

lemma occurs_in_iff: "occurs_in p t \<longleftrightarrow> (\<exists>pre post. t = pre @ p @ post)"
proof (induction t)
  case Nil
  then show ?case by auto
next
  case (Cons c cs)
  show ?case
  proof
    assume "occurs_in p (c # cs)"
    then consider "starts_with p (c # cs)" | "occurs_in p cs" by auto
    then show "\<exists>pre post. c # cs = pre @ p @ post"
    proof cases
      case 1
      then obtain post where "c # cs = p @ post" by (auto simp: starts_with_iff)
      then have "c # cs = [] @ p @ post" by simp
      then show ?thesis by blast
    next
      case 2
      then obtain pre post where "cs = pre @ p @ post" using Cons.IH by blast
      then have "c # cs = (c # pre) @ p @ post" by simp
      then show ?thesis by blast
    qed
  next
    assume "\<exists>pre post. c # cs = pre @ p @ post"
    then obtain pre post where eq: "c # cs = pre @ p @ post" by blast
    show "occurs_in p (c # cs)"
    proof (cases pre)
      case Nil
      with eq have "starts_with p (c # cs)" by (auto simp: starts_with_iff)
      then show ?thesis by simp
    next
      case (Cons a pre')
      with eq have "cs = pre' @ p @ post" by simp
      then have "occurs_in p cs" using Cons.IH by blast
      then show ?thesis by simp
    qed
  qed
qed

lemma occurs_in_toLowerCase_iff:
  "occurs_in p (toLowerCase t) \<longleftrightarrow> (\<exists>pre mid post. t = pre @ mid @ post \<and> toLowerCase mid = p)"
proof
  assume "occurs_in p (toLowerCase t)"
  then obtain pre' post' where "map lower_char t = pre' @ p @ post'"
    by (auto simp: occurs_in_iff toLowerCase_def)
  then have "\<exists>us vs. t = us @ vs \<and> pre' = map lower_char us \<and> p @ post' = map lower_char vs"
    by (simp add: map_eq_append_conv)
  then obtain pre rest where t: "t = pre @ rest" and r: "map lower_char rest = p @ post'"
    by metis
  from r have "\<exists>us vs. rest = us @ vs \<and> p = map lower_char us \<and> post' = map lower_char vs"
    by (simp add: map_eq_append_conv)
  then obtain mid post where "rest = mid @ post" and "map lower_char mid = p"
    by metis
  with t show "\<exists>pre mid post. t = pre @ mid @ post \<and> toLowerCase mid = p"
    by (auto simp: toLowerCase_def)
next
  assume "\<exists>pre mid post. t = pre @ mid @ post \<and> toLowerCase mid = p"
  then obtain pre mid post where "t = pre @ mid @ post" and "toLowerCase mid = p" by blast
  then have "toLowerCase t = toLowerCase pre @ p @ toLowerCase post"
    by (simp add: toLowerCase_def)
  then show "occurs_in p (toLowerCase t)"
    unfolding occurs_in_iff by blast
qed

lemma blocked_title_test_iff:
  "blocked_title_test t \<longleftrightarrow>
     (\<exists>phrase \<in> set BLOCKED_TITLE_ALTERNATIVES. \<exists>pre mid post. t = pre @ mid @ post \<and> toLowerCase mid = phrase)"
  by (simp only: blocked_title_test_def list_ex_iff occurs_in_toLowerCase_iff)

text \<open>
  C6. The scan response is the blocked one exactly when the response status is 401, 403
  or 429, or the title contains one of "access denied", "forbidden", "captcha",
  "attention required" in any letter case; and the blocked response carries an empty
  element list, count 0 and no screenshot, whatever the scan found.
\<close>

theorem blocked_judgment:
  "(body_blocked (scan_response url (Inr scan)) = Some True
      \<longleftrightarrow> scan_status scan \<in> {Some 401, Some 403, Some 429}
          \<or> (\<exists>phrase \<in> set [''access denied'', ''forbidden'', ''captcha'', ''attention required''].
               \<exists>pre mid post. or_empty (scan_title scan) = pre @ mid @ post \<and> toLowerCase mid = phrase))
   \<and> (body_blocked (scan_response url (Inr scan)) = Some True
      \<longrightarrow> http_status (scan_response url (Inr scan)) = 422
          \<and> body_elements (scan_response url (Inr scan)) = Some []
          \<and> body_count (scan_response url (Inr scan)) = Some 0
          \<and> body_screenshot (scan_response url (Inr scan)) = None)"
proof -
  have title: "blockedByTitle scan \<longleftrightarrow>
      (\<exists>phrase \<in> set [''access denied'', ''forbidden'', ''captcha'', ''attention required''].
         \<exists>pre mid post. or_empty (scan_title scan) = pre @ mid @ post \<and> toLowerCase mid = phrase)"
    unfolding blockedByTitle_def blocked_title_test_iff BLOCKED_TITLE_ALTERNATIVES_def ..
  have status: "blockedByStatus scan \<longleftrightarrow> scan_status scan \<in> {Some 401, Some 403, Some 429}"
    by (auto simp: blockedByStatus_def)
  have flag: "body_blocked (scan_response url (Inr scan)) = Some True
      \<longleftrightarrow> blockedByStatus scan \<or> blockedByTitle scan"
    by (simp add: scan_response_def)
  have hidden: "blockedByStatus scan \<or> blockedByTitle scan \<Longrightarrow>
      http_status (scan_response url (Inr scan)) = 422
      \<and> body_elements (scan_response url (Inr scan)) = Some []
      \<and> body_count (scan_response url (Inr scan)) = Some 0
      \<and> body_screenshot (scan_response url (Inr scan)) = None"
    by (simp add: scan_response_def)
  show ?thesis
    using title status flag hidden by blast
qed

theorem blocked_judgment_witness:
  "scan_elements cloudflare_scan \<noteq> []
   \<and> body_blocked (scan_response ''https://example.com'' (Inr cloudflare_scan)) = Some True
   \<and> body_elements (scan_response ''https://example.com'' (Inr cloudflare_scan)) = Some []
   \<and> body_screenshot (scan_response ''https://example.com'' (Inr cloudflare_scan)) = None"
proof -
  have found: "scan_elements cloudflare_scan \<noteq> []"
    by code_simp
  have split: "or_empty (scan_title cloudflare_scan) = [] @ ''Attention Required'' @ ''! | CloudFlare''
      \<and> toLowerCase ''Attention Required'' = ''attention required''"
    by (simp add: cloudflare_scan_def toLowerCase_def lower_char_def)
  then have "\<exists>phrase \<in> set [''access denied'', ''forbidden'', ''captcha'', ''attention required''].
      \<exists>pre mid post. or_empty (scan_title cloudflare_scan) = pre @ mid @ post
        \<and> toLowerCase mid = phrase"
    by (metis list.set_intros(1,2))
  with blocked_judgment [of "''https://example.com''" cloudflare_scan] found show ?thesis
    by blast
qed

text \<open>
  C10. A scan without a response (status null) does not meet the status condition, a
  missing or empty title does not meet the title condition, and a scan with both goes
  through the zero-elements branch or the success branch, screenshot included.
\<close>

theorem no_response_no_title_not_blocked:
  "(scan_status scan = None \<longrightarrow> \<not> blockedByStatus scan)
   \<and> (scan_title scan = None \<or> scan_title scan = Some [] \<longrightarrow> \<not> blockedByTitle scan)
   \<and> (scan_status scan = None \<and> (scan_title scan = None \<or> scan_title scan = Some []) \<longrightarrow>
        body_blocked (scan_response url (Inr scan)) = None
        \<and> body_screenshot (scan_response url (Inr scan)) = Some (scan_screenshot scan)
        \<and> (if scan_elements scan = []
            then http_status (scan_response url (Inr scan)) = 422
               \<and> body_error (scan_response url (Inr scan)) = Some ''Screenshot scan found no visible interactive elements.''
            else http_status (scan_response url (Inr scan)) = 200
               \<and> body_ok (scan_response url (Inr scan))
               \<and> body_elements (scan_response url (Inr scan)) = Some (scan_elements scan)))"
proof -
  have s: "scan_status scan = None \<Longrightarrow> \<not> blockedByStatus scan"
    by (simp add: blockedByStatus_def)
  have t: "scan_title scan = None \<or> scan_title scan = Some [] \<Longrightarrow> \<not> blockedByTitle scan"
    by (auto simp: blockedByTitle_def blocked_title_test_def BLOCKED_TITLE_ALTERNATIVES_def toLowerCase_def)
  show ?thesis
    using s t by (auto simp: scan_response_def)
qed

theorem no_response_no_title_not_blocked_witness:
  "scan_status no_response_scan = None \<and> scan_title no_response_scan = Some []
   \<and> body_blocked (scan_response ''about:blank'' (Inr no_response_scan)) = None
   \<and> http_status (scan_response ''about:blank'' (Inr no_response_scan)) = 200"
proof -
  have st: "scan_status no_response_scan = None" and ti: "scan_title no_response_scan = Some []"
    by (simp_all add: no_response_scan_def)
  have found: "scan_elements no_response_scan \<noteq> []"
    by code_simp
  from no_response_no_title_not_blocked [of no_response_scan "''about:blank''"] st ti found
  show ?thesis by simp
qed

section \<open>Properties of the browser manager\<close>

lemma getBrowser_live: "browser s = Some b \<Longrightarrow> getBrowser eng s = (Inr b, s)"
  by (simp add: getBrowser_def)

lemma getBrowser_launch:
  "browser s = None \<Longrightarrow> launch_error eng = None \<Longrightarrow>
   getBrowser eng s =
     (Inr (next_handle s),
      s\<lparr>trace := trace s @ [LaunchCall (or_undefined (proxy (options s)))],
        browser := Some (next_handle s), next_handle := Suc (next_handle s)\<rparr>)"
  by (simp add: getBrowser_def Let_def)

text \<open>The calls one session makes once its browser is there.\<close>

lemma withPage_trace:
  assumes "browser s \<noteq> None \<or> launch_error eng = None"
    and "newContext_error eng = None" and "addInitScript_error eng = None"
    and "newPage_error eng = None"
  shows "\<exists>b opts pre.
      (\<forall>ev \<in> set pre. \<exists>p. ev = LaunchCall p) \<and>
      trace (snd (withPage eng fn s)) = trace s @ pre @
        [NewContextCall b opts, AddInitScriptCall (next_handle (snd (getBrowser eng s))),
         NewPageCall (next_handle (snd (getBrowser eng s))),
         WorkCall (next_handle (snd (getBrowser eng s))),
         ContextCloseCall (next_handle (snd (getBrowser eng s)))]
      \<and> browser (snd (withPage eng fn s)) = Some b
      \<and> (browser s \<noteq> None \<longrightarrow> browser s = Some b)
      \<and> fst (withPage eng fn s) =
          (case contextClose_error eng of Some err \<Rightarrow> Inl err
           | None \<Rightarrow> fn (next_handle (snd (getBrowser eng s))))"
proof (cases "browser s")
  case None
  with assms(1) have ok: "launch_error eng = None" by simp
  show ?thesis
    using assms(2-4)
    by (simp add: withPage_def getBrowser_launch [OF None ok] None effectiveUserAgent_def
        effectiveViewport_def getNextUserAgent_def getNextViewport_def Let_def
        split: option.splits prod.splits if_splits)
next
  case (Some b)
  show ?thesis
    using assms(2-4)
    by (simp add: withPage_def getBrowser_live [OF Some] Some effectiveUserAgent_def
        effectiveViewport_def getNextUserAgent_def getNextViewport_def Let_def
        split: option.splits prod.splits if_splits)
qed


text \<open>
  The part of the release guarantee that holds. When the session is set up (browser
  there or launched, context and page opened),
  \<^verbatim>\<open>withPage\<close> calls the work function once and closes the context of that session exactly
  once, whether the work function returns a value or throws; it makes no call that closes
  the browser, and the manager still holds its browser handle afterwards. The outcome is
  the work function's, unless closing the context itself throws.
\<close>

theorem withPage_releases_context_once:
  "browser s \<noteq> None \<or> launch_error eng = None \<Longrightarrow>
   newContext_error eng = None \<Longrightarrow> addInitScript_error eng = None \<Longrightarrow>
   newPage_error eng = None \<Longrightarrow>
   count_list (events_since s (snd (withPage eng fn s)))
       (ContextCloseCall (next_handle (snd (getBrowser eng s)))) = 1
   \<and> count_list (events_since s (snd (withPage eng fn s)))
       (WorkCall (next_handle (snd (getBrowser eng s)))) = 1
   \<and> (\<forall>b. BrowserCloseCall b \<notin> set (events_since s (snd (withPage eng fn s))))
   \<and> browser (snd (withPage eng fn s)) \<noteq> None
   \<and> (browser s \<noteq> None \<longrightarrow> browser (snd (withPage eng fn s)) = browser s)
   \<and> fst (withPage eng fn s) =
        (case contextClose_error eng of
           Some err \<Rightarrow> Inl err
         | None \<Rightarrow> fn (next_handle (snd (getBrowser eng s))))"
proof -
  assume a: "browser s \<noteq> None \<or> launch_error eng = None" "newContext_error eng = None"
    "addInitScript_error eng = None" "newPage_error eng = None"
  let ?c = "next_handle (snd (getBrowser eng s))"
  let ?s' = "snd (withPage eng fn s)"
  from withPage_trace [OF a, of fn] obtain b opts pre where
    pre: "\<forall>ev \<in> set pre. \<exists>p. ev = LaunchCall p"
    and tr: "trace ?s' = trace s @ pre @
        [NewContextCall b opts, AddInitScriptCall ?c, NewPageCall ?c, WorkCall ?c, ContextCloseCall ?c]"
    and br: "browser ?s' = Some b" "browser s \<noteq> None \<longrightarrow> browser s = Some b"
    and res: "fst (withPage eng fn s) =
        (case contextClose_error eng of Some err \<Rightarrow> Inl err | None \<Rightarrow> fn ?c)"
    by blast
  have ev: "events_since s ?s' = pre @
        [NewContextCall b opts, AddInitScriptCall ?c, NewPageCall ?c, WorkCall ?c, ContextCloseCall ?c]"
    by (simp add: events_since_def tr)
  from pre have no_close: "ContextCloseCall ?c \<notin> set pre" and no_work: "WorkCall ?c \<notin> set pre"
    and no_bclose: "\<forall>h. BrowserCloseCall h \<notin> set pre"
    by auto
  from no_close have c1: "count_list (events_since s ?s') (ContextCloseCall ?c) = 1"
    by (simp add: ev count_list_0_iff [THEN iffD2])
  from no_work have c2: "count_list (events_since s ?s') (WorkCall ?c) = 1"
    by (simp add: ev count_list_0_iff [THEN iffD2])
  from no_bclose have c3: "\<forall>h. BrowserCloseCall h \<notin> set (events_since s ?s')"
    by (simp add: ev)
  from c1 c2 c3 br res show ?thesis by simp
qed

theorem withPage_releases_context_once_witness:
  "fst (withPage quiet_engine throwing_work initial_manager) = Inl (Error ''boom'')
   \<and> count_list (events_since initial_manager (snd (withPage quiet_engine throwing_work initial_manager)))
        (ContextCloseCall 1) = 1
   \<and> browser (snd (withPage quiet_engine throwing_work initial_manager)) \<noteq> None"
proof -
  have h: "browser initial_manager \<noteq> None \<or> launch_error quiet_engine = None"
    "newContext_error quiet_engine = None" "addInitScript_error quiet_engine = None"
    "newPage_error quiet_engine = None" "contextClose_error quiet_engine = None"
    by (simp_all add: quiet_engine_def)
  have c: "next_handle (snd (getBrowser quiet_engine initial_manager)) = 1"
    by (simp add: getBrowser_def initial_manager_def quiet_engine_def Let_def)
  from withPage_releases_context_once [OF h(1-4), of throwing_work] show ?thesis
    by (simp add: c h(5) throwing_work_def)
qed

text \<open>
  The \<^verbatim>\<open>try\<close> opens only after the page exists: when opening the page throws, the work
  function is not called and the context that was created is not closed.
\<close>

lemma withPage_newPage_failure_leaves_context:
  assumes "browser s = Some b" and "newContext_error eng = None"
    and "addInitScript_error eng = None" and "newPage_error eng = Some err"
  shows "fst (withPage eng fn s) = Inl err"
    and "\<forall>c. ContextCloseCall c \<notin> set (events_since s (snd (withPage eng fn s)))"
    and "\<forall>c. WorkCall c \<notin> set (events_since s (snd (withPage eng fn s)))"
  using assms
  by (simp_all add: withPage_def getBrowser_live [OF assms(1)] effectiveUserAgent_def
      effectiveViewport_def getNextUserAgent_def getNextViewport_def Let_def events_since_def
      split: option.splits prod.splits)

text \<open>
  C2, at a manager with a live browser and an engine on which opening the page (or
  installing the init script) throws. The context has been created by then, the work
  function is never called, and \<^verbatim>\<open>withPage\<close> exits with the error without closing the
  context: the context-close call is made zero times, not once.
\<close>

theorem withPage_leaves_context_open_before_try:
  "withPage newPage_failing_engine returning_work live_manager
     = (Inl (Error ''Target closed''),
        live_manager\<lparr>viewportIndex := 1, next_handle := 2,
          trace := trace live_manager @
            [NewContextCall 0 (contextOptions (Some \<lparr>vp_width = 1920, vp_height = 1080\<rparr>) None),
             AddInitScriptCall 1, NewPageCall 1]\<rparr>)
   \<and> count_list (events_since live_manager
        (snd (withPage newPage_failing_engine returning_work live_manager)))
        (ContextCloseCall 1) = 0
   \<and> withPage addInitScript_failing_engine returning_work live_manager
     = (Inl (Error ''Target closed''),
        live_manager\<lparr>viewportIndex := 1, next_handle := 2,
          trace := trace live_manager @
            [NewContextCall 0 (contextOptions (Some \<lparr>vp_width = 1920, vp_height = 1080\<rparr>) None),
             AddInitScriptCall 1]\<rparr>)
   \<and> count_list (events_since live_manager
        (snd (withPage addInitScript_failing_engine returning_work live_manager)))
        (ContextCloseCall 1) = 0"
proof -
  have live: "browser live_manager = Some 0" "next_handle live_manager = 1"
    "viewportIndex live_manager = 0" "viewport (options live_manager) = None"
    "userAgent (options live_manager) = None" "rotateUA (options live_manager) = None"
    by (simp_all add: live_manager_def getBrowser_def quiet_engine_def initial_manager_def Let_def)
  have np: "withPage newPage_failing_engine returning_work live_manager
     = (Inl (Error ''Target closed''),
        live_manager\<lparr>viewportIndex := 1, next_handle := 2,
          trace := trace live_manager @
            [NewContextCall 0 (contextOptions (Some \<lparr>vp_width = 1920, vp_height = 1080\<rparr>) None),
             AddInitScriptCall 1, NewPageCall 1]\<rparr>)"
    by (simp add: withPage_def getBrowser_live [OF live(1)] live effectiveUserAgent_def
        effectiveViewport_def getNextViewport_def at_index_def VIEWPORTS_def truthy_def
        newPage_failing_engine_def quiet_engine_def Let_def)
  have ai: "withPage addInitScript_failing_engine returning_work live_manager
     = (Inl (Error ''Target closed''),
        live_manager\<lparr>viewportIndex := 1, next_handle := 2,
          trace := trace live_manager @
            [NewContextCall 0 (contextOptions (Some \<lparr>vp_width = 1920, vp_height = 1080\<rparr>) None),
             AddInitScriptCall 1]\<rparr>)"
    by (simp add: withPage_def getBrowser_live [OF live(1)] live effectiveUserAgent_def
        effectiveViewport_def getNextViewport_def at_index_def VIEWPORTS_def truthy_def
        addInitScript_failing_engine_def quiet_engine_def Let_def)
  show ?thesis
    by (simp add: np ai events_since_def)
qed

lemma issued_userAgents_append:
  "issued_userAgents (xs @ ys) = issued_userAgents xs @ issued_userAgents ys"
  by (induction xs rule: issued_userAgents.induct) simp_all

lemma co_userAgent_contextOptions: "co_userAgent (contextOptions vp ua) = ua"
  by (simp add: contextOptions_def)

lemma withPage_rotation_step:
  assumes "browser s \<noteq> None \<or> launch_error eng = None"
    and "rotateUA (options s) = Some True" and "\<not> truthy (userAgent (options s))"
  shows "\<exists>evs. trace (snd (withPage eng fn s)) = trace s @ evs
      \<and> issued_userAgents evs = [at_index USER_AGENTS (uaIndex s)]
      \<and> options (snd (withPage eng fn s)) = options s
      \<and> uaIndex (snd (withPage eng fn s)) = (uaIndex s + 1) mod length USER_AGENTS
      \<and> browser (snd (withPage eng fn s)) \<noteq> None"
proof (cases "browser s")
  case None
  with assms(1) have ok: "launch_error eng = None" by simp
  show ?thesis
    using assms(2,3)
    by (simp add: withPage_def getBrowser_launch [OF None ok] None effectiveUserAgent_def
        effectiveViewport_def getNextUserAgent_def getNextViewport_def Let_def
        co_userAgent_contextOptions split: option.splits prod.splits)
next
  case (Some b)
  show ?thesis
    using assms(2,3)
    by (simp add: withPage_def getBrowser_live [OF Some] Some effectiveUserAgent_def
        effectiveViewport_def getNextUserAgent_def getNextViewport_def Let_def
        co_userAgent_contextOptions split: option.splits prod.splits)
qed

lemma length_USER_AGENTS: "length USER_AGENTS = 4"
  by (simp add: USER_AGENTS_def)

lemma withPage_each_rotation:
  "rotateUA (options s) = Some True \<Longrightarrow> \<not> truthy (userAgent (options s)) \<Longrightarrow>
   uaIndex s < length USER_AGENTS \<Longrightarrow>
   browser s \<noteq> None \<or> (\<forall>(eng, fn) \<in> set sessions. launch_error eng = None) \<Longrightarrow>
   \<exists>evs. trace (withPage_each sessions s) = trace s @ evs
     \<and> issued_userAgents evs =
         map (\<lambda>k. Some (USER_AGENTS ! ((uaIndex s + k) mod length USER_AGENTS)))
           [0..<length sessions]"
proof (induction sessions arbitrary: s)
  case Nil
  then show ?case by simp
next
  case (Cons session rest)
  obtain eng fn where session: "session = (eng, fn)" by (cases session)
  let ?s' = "snd (withPage eng fn s)"
  from Cons.prems(4) session have ok: "browser s \<noteq> None \<or> launch_error eng = None"
    by auto
  from withPage_rotation_step [OF ok Cons.prems(1,2), of fn] obtain evs1 where
    tr1: "trace ?s' = trace s @ evs1"
    and is1: "issued_userAgents evs1 = [at_index USER_AGENTS (uaIndex s)]"
    and op1: "options ?s' = options s"
    and ua1: "uaIndex ?s' = (uaIndex s + 1) mod length USER_AGENTS"
    and br1: "browser ?s' \<noteq> None"
    by blast
  have "uaIndex ?s' < length USER_AGENTS"
    by (simp add: ua1 length_USER_AGENTS)
  with Cons.IH [of ?s'] Cons.prems(1,2) op1 br1 obtain evs2 where
    tr2: "trace (withPage_each rest ?s') = trace ?s' @ evs2"
    and is2: "issued_userAgents evs2 =
         map (\<lambda>k. Some (USER_AGENTS ! ((uaIndex ?s' + k) mod length USER_AGENTS)))
           [0..<length rest]"
    by auto
  have shift: "(uaIndex ?s' + k) mod length USER_AGENTS = (uaIndex s + Suc k) mod length USER_AGENTS" for k
    by (simp add: ua1 mod_add_left_eq)
  have first: "at_index USER_AGENTS (uaIndex s) = Some (USER_AGENTS ! ((uaIndex s + 0) mod length USER_AGENTS))"
    using Cons.prems(3) by (simp add: at_index_def)
  have "trace (withPage_each (session # rest) s) = trace s @ (evs1 @ evs2)"
    by (simp add: session tr2 tr1)
  moreover have "issued_userAgents (evs1 @ evs2) =
      map (\<lambda>k. Some (USER_AGENTS ! ((uaIndex s + k) mod length USER_AGENTS)))
        [0..<length (session # rest)]"
    by (simp only: issued_userAgents_append is1 is2 shift first map_upt_Suc length_Cons append_Cons append_Nil)
  ultimately show ?case by blast
qed

text \<open>
  C9 (as the code has it). \<^verbatim>\<open>getNextUserAgent\<close> returns the entry at the cursor's current
  position and then advances the cursor modulo the table length. With rotation on and no
  fixed user-agent, consecutive sessions whose browser launch succeeds are given the
  table's entries in round-robin order starting at the cursor: session \<open>k\<close> gets entry
  \<open>(cursor + k) mod 4\<close>.
\<close>

theorem user_agent_round_robin:
  "(uaIndex s < length USER_AGENTS \<longrightarrow>
      fst (getNextUserAgent s) = Some (USER_AGENTS ! uaIndex s)
      \<and> uaIndex (snd (getNextUserAgent s)) = (uaIndex s + 1) mod length USER_AGENTS)
   \<and> (rotateUA (options s) = Some True \<and> \<not> truthy (userAgent (options s))
      \<and> uaIndex s < length USER_AGENTS
      \<and> (\<forall>(eng, fn) \<in> set sessions. launch_error eng = None) \<longrightarrow>
      issued_userAgents (events_since s (withPage_each sessions s)) =
        map (\<lambda>k. Some (USER_AGENTS ! ((uaIndex s + k) mod length USER_AGENTS)))
          [0..<length sessions])"
proof -
  have one: "uaIndex s < length USER_AGENTS \<longrightarrow>
      fst (getNextUserAgent s) = Some (USER_AGENTS ! uaIndex s)
      \<and> uaIndex (snd (getNextUserAgent s)) = (uaIndex s + 1) mod length USER_AGENTS"
    by (simp add: getNextUserAgent_def at_index_def Let_def)
  have many: "issued_userAgents (events_since s (withPage_each sessions s)) =
        map (\<lambda>k. Some (USER_AGENTS ! ((uaIndex s + k) mod length USER_AGENTS)))
          [0..<length sessions]"
    if "rotateUA (options s) = Some True" "\<not> truthy (userAgent (options s))"
      "uaIndex s < length USER_AGENTS" "\<forall>(eng, fn) \<in> set sessions. launch_error eng = None"
  proof -
    from withPage_each_rotation [OF that(1-3), of sessions] that(4) obtain evs where
      "trace (withPage_each sessions s) = trace s @ evs"
      and "issued_userAgents evs =
        map (\<lambda>k. Some (USER_AGENTS ! ((uaIndex s + k) mod length USER_AGENTS)))
          [0..<length sessions]"
      by blast
    then show ?thesis by (simp add: events_since_def)
  qed
  from one many show ?thesis by blast
qed

theorem user_agent_round_robin_witness:
  "issued_userAgents (events_since rotating_manager
     (withPage_each [(quiet_engine, throwing_work), (quiet_engine, throwing_work),
        (quiet_engine, throwing_work), (quiet_engine, throwing_work),
        (quiet_engine, throwing_work)] rotating_manager))
   = [Some (USER_AGENTS ! 0), Some (USER_AGENTS ! 1), Some (USER_AGENTS ! 2),
      Some (USER_AGENTS ! 3), Some (USER_AGENTS ! 0)]"
proof -
  let ?sessions = "[(quiet_engine, throwing_work), (quiet_engine, throwing_work),
        (quiet_engine, throwing_work), (quiet_engine, throwing_work),
        (quiet_engine, throwing_work)]"
  have h: "rotateUA (options rotating_manager) = Some True"
    "\<not> truthy (userAgent (options rotating_manager))"
    "uaIndex rotating_manager = 0" "launch_error quiet_engine = None"
    by (simp_all add: rotating_manager_def initial_manager_def quiet_engine_def truthy_def)
  have idx: "uaIndex rotating_manager < length USER_AGENTS"
    by (simp add: h(3) length_USER_AGENTS)
  have ok: "\<forall>(eng, fn) \<in> set ?sessions. launch_error eng = None"
    by (simp add: h(4))
  have rhs: "map (\<lambda>k. Some (USER_AGENTS ! ((uaIndex rotating_manager + k) mod length USER_AGENTS)))
          [0..<length ?sessions]
      = [Some (USER_AGENTS ! 0), Some (USER_AGENTS ! 1), Some (USER_AGENTS ! 2),
         Some (USER_AGENTS ! 3), Some (USER_AGENTS ! 0)]"
    by code_simp
  from user_agent_round_robin [of rotating_manager ?sessions] h(1,2) idx ok
  have "issued_userAgents (events_since rotating_manager (withPage_each ?sessions rotating_manager))
      = map (\<lambda>k. Some (USER_AGENTS ! ((uaIndex rotating_manager + k) mod length USER_AGENTS)))
          [0..<length ?sessions]"
    by blast
  then show ?thesis by (simp only: rhs)
qed

theorem user_agent_returned_before_advance:
  "fst (getNextUserAgent initial_manager) = Some (USER_AGENTS ! 0)
   \<and> uaIndex (snd (getNextUserAgent initial_manager)) = 1
   \<and> USER_AGENTS ! 1 \<noteq> USER_AGENTS ! 0"
  by (simp add: getNextUserAgent_def initial_manager_def at_index_def USER_AGENTS_def Let_def)

text \<open>
  C3, at a manager with a live browser. \<^verbatim>\<open>setOptions\<close> stores the new options and starts
  closing the browser, but returns with the old handle still in place: a session opened
  right after is given that same browser without a launch. The handle is reset only when
  the pending tail of \<^verbatim>\<open>close()\<close> runs.
\<close>

theorem setOptions_returns_before_handle_reset:
  "browser live_manager = Some 0
   \<and> options (setOptions new_options live_manager) = new_options
   \<and> browser (setOptions new_options live_manager) = Some 0
   \<and> events_since live_manager (setOptions new_options live_manager) = [BrowserCloseCall 0]
   \<and> pending (setOptions new_options live_manager) = [AfterBrowserClose]
   \<and> getBrowser quiet_engine (setOptions new_options live_manager)
        = (Inr 0, setOptions new_options live_manager)
   \<and> browser (run_pending True (setOptions new_options live_manager)) = None"
  by (simp add: live_manager_def setOptions_def close_begin_def run_pending_def getBrowser_def
      quiet_engine_def initial_manager_def events_since_def Let_def)

section \<open>Properties of structural extraction\<close>

lemma legacy_step_cases:
  "extractElements_legacy_step acc x =
     (if \<not> detached x \<and> engineVisible x then acc @ [legacy_record x (length acc)] else acc)"
  by (simp add: extractElements_legacy_step_def)

lemma foldl_legacy_step:
  "foldl extractElements_legacy_step acc xs =
     acc @ map (\<lambda>(i, e). legacy_record e i)
             (enumerate (length acc) (filter (\<lambda>e. \<not> detached e \<and> engineVisible e) xs))"
proof (induction xs arbitrary: acc)
  case Nil
  then show ?case by simp
next
  case (Cons x xs)
  have "foldl extractElements_legacy_step acc (x # xs)
      = foldl extractElements_legacy_step (extractElements_legacy_step acc x) xs"
    by (simp only: foldl_Cons)
  also have "\<dots> = extractElements_legacy_step acc x @ map (\<lambda>(i, e). legacy_record e i)
      (enumerate (length (extractElements_legacy_step acc x))
         (filter (\<lambda>e. \<not> detached e \<and> engineVisible e) xs))"
    by (rule Cons.IH)
  also have "\<dots> = acc @ map (\<lambda>(i, e). legacy_record e i)
      (enumerate (length acc) (filter (\<lambda>e. \<not> detached e \<and> engineVisible e) (x # xs)))"
    by (simp add: legacy_step_cases)
  finally show ?case .
qed

lemma foldl_legacy_selectors:
  fixes els :: "Element list"
  defines "body \<equiv> \<lambda>elements selector.
            foldl extractElements_legacy_step elements (querySelectorAll selector els)"
  shows "foldl body acc sels =
   acc @ map (\<lambda>(i, e). legacy_record e i)
           (enumerate (length acc)
              (concat (map (\<lambda>selector. filter (\<lambda>e. \<not> detached e \<and> engineVisible e)
                                          (querySelectorAll selector els)) sels)))"
proof (induction sels arbitrary: acc)
  case Nil
  then show ?case by simp
next
  case (Cons sel sels)
  have b: "body acc sel = acc @ map (\<lambda>(i, e). legacy_record e i)
      (enumerate (length acc)
         (filter (\<lambda>e. \<not> detached e \<and> engineVisible e) (querySelectorAll sel els)))"
    by (simp add: body_def foldl_legacy_step)
  have "foldl body acc (sel # sels) = foldl body (body acc sel) sels"
    by (simp only: foldl_Cons)
  also have "\<dots> = body acc sel @ map (\<lambda>(i, e). legacy_record e i)
      (enumerate (length (body acc sel))
         (concat (map (\<lambda>selector. filter (\<lambda>e. \<not> detached e \<and> engineVisible e)
                                     (querySelectorAll selector els)) sels)))"
    by (rule Cons.IH)
  also have "\<dots> = acc @ map (\<lambda>(i, e). legacy_record e i)
      (enumerate (length acc)
         (concat (map (\<lambda>selector. filter (\<lambda>e. \<not> detached e \<and> engineVisible e)
                                     (querySelectorAll selector els)) (sel # sels))))"
    by (simp add: b enumerate_append_eq)
  finally show ?case .
qed

lemma extractElements_legacy_eq:
  "extractElements_legacy page = map_indexed legacy_record (legacy_sources page)"
  by (simp add: extractElements_legacy_def foldl_legacy_selectors legacy_sources_def map_indexed_def)

lemma legacy_sources_visible: "e \<in> set (legacy_sources page) \<Longrightarrow> engineVisible e \<and> e \<in> set (dom page)"
  by (auto simp: legacy_sources_def querySelectorAll_def)


lemma mapRawElement_fields:
  "el_tag (mapRawElement r) = raw_tag r" "el_action (mapRawElement r) = raw_action r"
  "el_text (mapRawElement r) = raw_text r" "el_confidence (mapRawElement r) = raw_confidence r"
  "el_bbox (mapRawElement r) = raw_bbox r" "el_id (mapRawElement r) = raw_id r"
  by (simp_all add: mapRawElement_def with_selector_def)

text \<open>An input whose \<^verbatim>\<open>type\<close> is written \<^verbatim>\<open>HIDDEN\<close> is excluded like a hidden one.\<close>

lemma upper_hidden_input_skipped:
  "map (\<lambda>el. (el_id el, el_name el)) (extractElements upper_hidden_input_page)
     = [(''el-0'', Some ''u'')]"
  by code_simp

lemma matches_concat: "matches (concat sels) e \<longleftrightarrow> (\<exists>sel \<in> set sels. matches sel e)"
  by (auto simp: matches_def list_ex_iff)

lemma extractElements_eq:
  "extractElements page =
     map_indexed (\<lambda>e i. mapRawElement (project e i))
       (filter (matches INTERACTIVE_SELECTOR) (dom page))"
  by (simp add: extractElements_def mapRawElements_def map_indexed_def querySelectorAll_def
      case_prod_unfold)

lemma legacy_sources_match:
  "e \<in> set (legacy_sources page) \<Longrightarrow> matches INTERACTIVE_SELECTOR e"
  by (auto simp: legacy_sources_def querySelectorAll_def INTERACTIVE_SELECTOR_def matches_concat)

text \<open>
  C1 (as the code has it). \<^verbatim>\<open>extractElements\<close> makes no visibility test: its result is
  the projection of every element that matches the interactive taxonomy, in order, so a
  matching element has its record in the result whether or not the engine reports it
  visible. Only the element-by-element variant filters: its result is built from the
  matches, per category, that are attached and engine-visible, so every record of it
  comes from a visible match.
\<close>

theorem extractElements_visibility:
  "extractElements page =
     map_indexed (\<lambda>e i. mapRawElement (project e i))
       (filter (matches INTERACTIVE_SELECTOR) (dom page))
   \<and> (e \<in> set (dom page) \<and> matches INTERACTIVE_SELECTOR e \<longrightarrow>
        (\<exists>i. i < length (extractElements page)
           \<and> extractElements page ! i = mapRawElement (project e i)))
   \<and> extractElements_legacy page =
     map_indexed legacy_record
       (concat (map (\<lambda>category. filter (\<lambda>e. \<not> detached e \<and> engineVisible e)
                                  (filter (matches category) (dom page)))
                  interactiveSelectors))
   \<and> (j < length (extractElements_legacy page) \<longrightarrow>
        (\<exists>src. src \<in> set (dom page) \<and> matches INTERACTIVE_SELECTOR src \<and> engineVisible src
           \<and> extractElements_legacy page ! j = legacy_record src j))"
proof -
  let ?ms = "filter (matches INTERACTIVE_SELECTOR) (dom page)"
  have cur: "extractElements page = map_indexed (\<lambda>e i. mapRawElement (project e i)) ?ms"
    by (rule extractElements_eq)
  have hidden_too: "\<exists>i. i < length (extractElements page)
      \<and> extractElements page ! i = mapRawElement (project e i)"
    if "e \<in> set (dom page) \<and> matches INTERACTIVE_SELECTOR e"
  proof -
    from that have "e \<in> set ?ms" by simp
    then obtain i where i: "i < length ?ms" and e: "?ms ! i = e"
      using in_set_conv_nth [of e ?ms] by blast
    from i have "extractElements page ! i = mapRawElement (project (?ms ! i) i)"
      by (simp add: cur nth_map_indexed)
    with i e show ?thesis
      by (auto simp: cur length_map_indexed)
  qed
  have leg: "extractElements_legacy page =
     map_indexed legacy_record
       (concat (map (\<lambda>category. filter (\<lambda>e. \<not> detached e \<and> engineVisible e)
                                  (filter (matches category) (dom page)))
                  interactiveSelectors))"
    by (simp add: extractElements_legacy_eq legacy_sources_def querySelectorAll_def)
  have visible_only: "\<exists>src. src \<in> set (dom page) \<and> matches INTERACTIVE_SELECTOR src
      \<and> engineVisible src \<and> extractElements_legacy page ! j = legacy_record src j"
    if "j < length (extractElements_legacy page)"
  proof -
    from that have j: "j < length (legacy_sources page)"
      by (simp add: extractElements_legacy_eq length_map_indexed)
    then have rec: "extractElements_legacy page ! j = legacy_record (legacy_sources page ! j) j"
      by (simp add: extractElements_legacy_eq nth_map_indexed)
    from j have mem: "legacy_sources page ! j \<in> set (legacy_sources page)" by simp
    from legacy_sources_visible [OF mem] legacy_sources_match [OF mem] rec show ?thesis
      by blast
  qed
  from cur hidden_too leg visible_only show ?thesis by blast
qed

theorem extractElements_visibility_witness:
  "map engineVisible (dom hidden_then_visible_page) = [False, True]
   \<and> map el_id (extractElements hidden_then_visible_page) = [''hid'', ''vis'']
   \<and> map el_id (extractElements_legacy hidden_then_visible_page) = [''vis'']"
proof -
  let ?p = hidden_then_visible_page
  have vis: "map engineVisible (dom ?p) = [False, True]"
    by code_simp
  have e: "dom ?p ! 0 \<in> set (dom ?p) \<and> matches INTERACTIVE_SELECTOR (dom ?p ! 0)"
    by code_simp
  have cur: "map el_id (map_indexed (\<lambda>e i. mapRawElement (project e i))
       (filter (matches INTERACTIVE_SELECTOR) (dom ?p))) = [''hid'', ''vis'']"
    by code_simp
  have leg: "map el_id (map_indexed legacy_record
       (concat (map (\<lambda>category. filter (\<lambda>e. \<not> detached e \<and> engineVisible e)
                                  (filter (matches category) (dom ?p)))
                  interactiveSelectors))) = [''vis'']"
    by code_simp
  from extractElements_visibility [of ?p "dom ?p ! 0" 0] e cur leg vis show ?thesis
    by simp
qed

theorem extractElements_returns_hidden_match:
  "map el_tag (extractElements hidden_button_page) = [''button'']
   \<and> map engineVisible (dom hidden_button_page) = [False]
   \<and> map (\<lambda>e. rect_width (boundingClientRect e)) (dom hidden_button_page) = [0]"
  by code_simp

text \<open>
  C5 (as the code has it). \<^verbatim>\<open>extractElements\<close> returns its records in the document order of
  the matching elements, each element once, whatever its category: record \<open>i\<close> is built
  from the \<open>i\<close>-th match of the combined selector. The element-by-element variant returns
  them category by category (buttons, links, inputs, textareas, selects, role=button,
  tabindex), in document order within a category.
\<close>

theorem extractElements_order:
  "extractElements page =
     map_indexed (\<lambda>e i. mapRawElement (project e i))
       (filter (matches INTERACTIVE_SELECTOR) (dom page))
   \<and> extractElements_legacy page =
     map_indexed legacy_record
       (concat (map (\<lambda>category. filter (\<lambda>e. \<not> detached e \<and> engineVisible e)
                                  (filter (matches category) (dom page)))
                  interactiveSelectors))"
proof -
  have "extractElements page =
     map_indexed (\<lambda>e i. mapRawElement (project e i))
       (filter (matches INTERACTIVE_SELECTOR) (dom page))"
    by (simp add: extractElements_def mapRawElements_def map_indexed_def querySelectorAll_def
        case_prod_unfold)
  moreover have "extractElements_legacy page =
     map_indexed legacy_record
       (concat (map (\<lambda>category. filter (\<lambda>e. \<not> detached e \<and> engineVisible e)
                                  (filter (matches category) (dom page)))
                  interactiveSelectors))"
    by (simp add: extractElements_legacy_eq legacy_sources_def querySelectorAll_def)
  ultimately show ?thesis by blast
qed

theorem extractElements_order_witness:
  "map el_tag (extractElements link_then_button_page) = [''a'', ''button'']
   \<and> map el_tag (extractElements_legacy link_then_button_page) = [''button'', ''a'']"
proof -
  have cur: "map el_tag (map_indexed (\<lambda>e i. mapRawElement (project e i))
       (filter (matches INTERACTIVE_SELECTOR) (dom link_then_button_page))) = [''a'', ''button'']"
    by code_simp
  have leg: "map el_tag (map_indexed legacy_record
       (concat (map (\<lambda>category. filter (\<lambda>e. \<not> detached e \<and> engineVisible e)
                                  (filter (matches category) (dom link_then_button_page)))
                  interactiveSelectors))) = [''button'', ''a'']"
    by code_simp
  from extractElements_order [of link_then_button_page] cur leg show ?thesis by simp
qed

theorem extractElements_link_before_button:
  "map el_tag (extractElements link_then_button_page) = [''a'', ''button'']
   \<and> map (\<lambda>e. toLowerCase (tagName e)) (dom link_then_button_page) = [''a'', ''button'']"
  by code_simp

section \<open>Properties of the visual scan\<close>

lemma set_filter_Boolean: "set (filter_Boolean xs) = {v. Some v \<in> set xs}"
  by (induction xs) (auto split: option.splits)

lemma length_filter_Boolean: "length (filter_Boolean xs) \<le> length xs"
  by (induction xs) (auto split: option.splits)

lemma set_map_indexed: "y \<in> set (map_indexed f xs) \<Longrightarrow> \<exists>x \<in> set xs. \<exists>i. y = f x i"
  by (auto simp: map_indexed_def in_set_enumerate_eq)

lemma collect_sources:
  assumes "r \<in> set (collect sel conf t page)"
  shows "\<exists>e \<in> set (dom page). \<exists>i. matches sel e
      \<and> collect_project conf t (innerWidth page) (innerHeight page) e i = Some r"
proof -
  from assms have "Some r \<in> set (map_indexed
      (collect_project conf t (innerWidth page) (innerHeight page))
      (querySelectorAll sel (dom page)))"
    by (simp add: collect_def set_filter_Boolean)
  from set_map_indexed [OF this] obtain e i where
    e: "e \<in> set (querySelectorAll sel (dom page))"
    and r: "Some r = collect_project conf t (innerWidth page) (innerHeight page) e i"
    by blast
  from e have "e \<in> set (dom page)" and "matches sel e"
    by (simp_all add: querySelectorAll_def)
  with r show ?thesis by metis
qed

lemma collect_project_Some:
  assumes "collect_project conf t vw vh e i = Some r"
  shows "visible vw vh (boundingClientRect e)"
    and "raw_confidence r = Some conf"
    and "raw_text r = Some (normalized_text e)"
    and "t \<Longrightarrow> raw_action r = click \<and> 2 \<le> length (normalized_text e)"
  using assms
  by (auto simp: collect_project_def Let_def classify_def split: if_splits)

lemma length_normalized_text: "length (normalized_text e) \<le> 120"
  by (simp add: normalized_text_def substring0_def)

lemma single_spaced_Cons:
  "single_spaced (c # t) \<longleftrightarrow>
     (is_space c \<longrightarrow> c = CHR '' '' \<and> (t = [] \<or> \<not> is_space (hd t))) \<and> single_spaced t"
  by (cases t) auto

lemma collapse_ws_hd:
  "xs \<noteq> [] \<Longrightarrow> \<not> is_space (hd xs) \<Longrightarrow> collapse_ws xs \<noteq> [] \<and> hd (collapse_ws xs) = hd xs"
  by (cases xs) auto

lemma collapse_ws_Nil: "collapse_ws xs = [] \<longleftrightarrow> xs = []"
  by (cases xs) auto

lemma single_spaced_collapse_ws: "single_spaced (collapse_ws s)"
proof (induction s rule: collapse_ws.induct)
  case 1
  then show ?case by simp
next
  case (2 c cs)
  show ?case
  proof (cases "is_space c")
    case True
    let ?rest = "dropWhile is_space cs"
    have "collapse_ws ?rest = [] \<or> \<not> is_space (hd (collapse_ws ?rest))"
    proof (cases "?rest = []")
      case True
      then have "collapse_ws ?rest = []" by (simp only: collapse_ws.simps)
      then show ?thesis by blast
    next
      case False
      then have "\<not> is_space (hd ?rest)" by (rule hd_dropWhile)
      with False collapse_ws_hd [of ?rest] show ?thesis by simp
    qed
    with True "2.IH"(1) show ?thesis
      by (simp add: single_spaced_Cons)
  next
    case False
    with "2.IH"(2) show ?thesis
      by (simp add: single_spaced_Cons)
  qed
qed

lemma single_spaced_take: "single_spaced t \<Longrightarrow> single_spaced (take n t)"
proof (induction t arbitrary: n)
  case Nil
  then show ?case by simp
next
  case (Cons c t)
  show ?case
  proof (cases n)
    case 0
    then show ?thesis by simp
  next
    case (Suc m)
    from Cons.prems have tl: "single_spaced t"
      and hd: "is_space c \<longrightarrow> c = CHR '' '' \<and> (t = [] \<or> \<not> is_space (hd t))"
      by (simp_all add: single_spaced_Cons)
    from hd have "is_space c \<longrightarrow> c = CHR '' '' \<and> (take m t = [] \<or> \<not> is_space (hd (take m t)))"
      by (cases m; cases t) auto
    with Cons.IH [OF tl, of m] Suc show ?thesis
      by (simp add: single_spaced_Cons)
  qed
qed

lemma single_spaced_normalized_text: "single_spaced (normalized_text e)"
  by (simp add: normalized_text_def substring0_def single_spaced_take single_spaced_collapse_ws)

lemma visible_overlap:
  assumes "0 < vw" and "0 < vh" and "visible vw vh r"
  shows "8 < rect_width r" and "8 < rect_height r"
    and "0 < overlap_width vw r" and "0 < overlap_height vh r"
  using assms
  by (auto simp: visible_def overlap_width_def overlap_height_def rect_right_def rect_bottom_def
      min_def max_def)

text \<open>
  C4. The scan returns fallback-tier elements only when the primary tier found none:
  an element of the result has confidence 0.55 exactly when the primary tier is empty
  (and 0.85 otherwise). Every fallback-tier element has action click and a text of at
  least 2 and at most 120 characters in which whitespace is single plain spaces; and a
  fallback result has at most 50 elements.
\<close>

theorem fallback_tier:
  "(collect INTERACTIVE_SELECTOR (85 / 100) False page = [] \<longrightarrow>
      length (extractVisibleElementsWithBoxes page) \<le> 50)
   \<and> (el \<in> set (extractVisibleElementsWithBoxes page) \<longrightarrow>
        el_confidence el =
          (if collect INTERACTIVE_SELECTOR (85 / 100) False page = [] then Some (55 / 100)
           else Some (85 / 100))
        \<and> (collect INTERACTIVE_SELECTOR (85 / 100) False page = [] \<longrightarrow>
             el_action el = click
             \<and> (\<exists>t. el_text el = Some t \<and> 2 \<le> length t \<and> length t \<le> 120 \<and> single_spaced t)))"
proof -
  let ?primary = "collect INTERACTIVE_SELECTOR (85 / 100) False page"
  let ?fallback = "collect FALLBACK_SELECTOR (55 / 100) True page"
  let ?out = "extractVisibleElementsWithBoxes page"
  have cap: "length ?out \<le> 50" if "?primary = []"
    using that by (simp add: extractVisibleElementsWithBoxes_def mapRawElements_def)
  have first: "el_confidence el = Some (85 / 100)" if "?primary \<noteq> []" "el \<in> set ?out"
  proof -
    from that obtain r where r: "r \<in> set ?primary" and el: "el = mapRawElement r"
      by (auto simp: extractVisibleElementsWithBoxes_def mapRawElements_def Let_def)
    from collect_sources [OF r] obtain e i where
      "collect_project (85 / 100) False (innerWidth page) (innerHeight page) e i = Some r"
      by blast
    from collect_project_Some(2) [OF this] el show ?thesis
      by (simp add: mapRawElement_fields)
  qed
  have second: "el_confidence el = Some (55 / 100) \<and> el_action el = click
      \<and> (\<exists>t. el_text el = Some t \<and> 2 \<le> length t \<and> length t \<le> 120 \<and> single_spaced t)"
    if "?primary = []" "el \<in> set ?out"
  proof -
    from that obtain r where "r \<in> set (take 50 ?fallback)" and el: "el = mapRawElement r"
      by (auto simp: extractVisibleElementsWithBoxes_def mapRawElements_def Let_def)
    then have r: "r \<in> set ?fallback" by (meson in_set_takeD)
    from collect_sources [OF r] obtain e i where
      p: "collect_project (55 / 100) True (innerWidth page) (innerHeight page) e i = Some r"
      by blast
    from collect_project_Some(2,3) [OF p] collect_project_Some(4) [OF p] el
    have "el_confidence el = Some (55 / 100)" and "el_action el = click"
      and "el_text el = Some (normalized_text e)" and "2 \<le> length (normalized_text e)"
      by (simp_all add: mapRawElement_fields)
    with length_normalized_text [of e] single_spaced_normalized_text [of e] show ?thesis
      by blast
  qed
  from cap first second show ?thesis by (cases "?primary = []") auto
qed

theorem fallback_tier_witness:
  "collect INTERACTIVE_SELECTOR (85 / 100) False paragraph_page = []
   \<and> extractVisibleElementsWithBoxes paragraph_page \<noteq> []
   \<and> length (extractVisibleElementsWithBoxes paragraph_page) \<le> 50
   \<and> el_confidence (hd (extractVisibleElementsWithBoxes paragraph_page)) = Some (55 / 100)
   \<and> el_action (hd (extractVisibleElementsWithBoxes paragraph_page)) = click"
proof -
  have empty: "collect INTERACTIVE_SELECTOR (85 / 100) False paragraph_page = []"
    by code_simp
  have found: "extractVisibleElementsWithBoxes paragraph_page \<noteq> []"
    by code_simp
  then have mem: "hd (extractVisibleElementsWithBoxes paragraph_page)
      \<in> set (extractVisibleElementsWithBoxes paragraph_page)"
    by simp
  from fallback_tier [of paragraph_page "hd (extractVisibleElementsWithBoxes paragraph_page)"]
    empty found mem
  show ?thesis by simp
qed

text \<open>
  C7. In a window of positive size, every record that \<^verbatim>\<open>collect\<close> returns, in either tier,
  comes from an element whose rectangle is wider and taller than 8 pixels and overlaps
  the viewport \<open>[0, innerWidth) \<times> [0, innerHeight)\<close> on both axes; and an element whose
  rectangle lies outside the viewport is rejected by the projection of either tier.
\<close>

theorem geometric_qualification:
  "0 < innerWidth page \<and> 0 < innerHeight page \<longrightarrow>
     (r \<in> set (collect sel conf textOnly page) \<longrightarrow>
        (\<exists>src k. src \<in> set (dom page)
           \<and> collect_project conf textOnly (innerWidth page) (innerHeight page) src k = Some r
           \<and> 8 < rect_width (boundingClientRect src) \<and> 8 < rect_height (boundingClientRect src)
           \<and> 0 < overlap_width (innerWidth page) (boundingClientRect src)
           \<and> 0 < overlap_height (innerHeight page) (boundingClientRect src)))
     \<and> (outside_viewport (innerWidth page) (innerHeight page) (boundingClientRect e) \<longrightarrow>
          collect_project conf textOnly (innerWidth page) (innerHeight page) e i = None)"
proof (intro impI conjI)
  assume pos: "0 < innerWidth page \<and> 0 < innerHeight page"
  {
    assume "r \<in> set (collect sel conf textOnly page)"
    from collect_sources [OF this] obtain src k where
      src: "src \<in> set (dom page)"
      and p: "collect_project conf textOnly (innerWidth page) (innerHeight page) src k = Some r"
      by blast
    from collect_project_Some(1) [OF p]
    have v: "visible (innerWidth page) (innerHeight page) (boundingClientRect src)" .
    from pos have w: "0 < innerWidth page" and h: "0 < innerHeight page" by simp_all
    from visible_overlap [OF w h v] src p
    show "\<exists>src k. src \<in> set (dom page)
           \<and> collect_project conf textOnly (innerWidth page) (innerHeight page) src k = Some r
           \<and> 8 < rect_width (boundingClientRect src) \<and> 8 < rect_height (boundingClientRect src)
           \<and> 0 < overlap_width (innerWidth page) (boundingClientRect src)
           \<and> 0 < overlap_height (innerHeight page) (boundingClientRect src)"
      by blast
  }
  {
    assume out: "outside_viewport (innerWidth page) (innerHeight page) (boundingClientRect e)"
    from pos have w: "0 < innerWidth page" and h: "0 < innerHeight page" by simp_all
    have "\<not> visible (innerWidth page) (innerHeight page) (boundingClientRect e)"
    proof
      assume "visible (innerWidth page) (innerHeight page) (boundingClientRect e)"
      from visible_overlap(3,4) [OF w h this] out show False
        by (simp add: outside_viewport_def)
    qed
    then show "collect_project conf textOnly (innerWidth page) (innerHeight page) e i = None"
      by (simp add: collect_project_def)
  }
qed

lemma all_outside_scan_empty:
  assumes "0 < innerWidth page" and "0 < innerHeight page"
    and "\<forall>e \<in> set (dom page).
           outside_viewport (innerWidth page) (innerHeight page) (boundingClientRect e)"
  shows "extractVisibleElementsWithBoxes page = []"
proof -
  have none: "collect sel conf textOnly page = []" for sel conf textOnly
  proof (rule ccontr)
    assume "collect sel conf textOnly page \<noteq> []"
    then obtain r where "r \<in> set (collect sel conf textOnly page)"
      by (cases "collect sel conf textOnly page") auto
    from collect_sources [OF this] obtain src k where
      src: "src \<in> set (dom page)"
      and p: "collect_project conf textOnly (innerWidth page) (innerHeight page) src k = Some r"
      by blast
    from visible_overlap(3,4) [OF assms(1,2) collect_project_Some(1) [OF p]] assms(3) src
    show False by (auto simp: outside_viewport_def)
  qed
  then show ?thesis
    by (simp add: extractVisibleElementsWithBoxes_def mapRawElements_def)
qed

theorem geometric_qualification_witness:
  "0 < innerWidth mixed_page \<and> 0 < innerHeight mixed_page
   \<and> hd (collect INTERACTIVE_SELECTOR (85 / 100) False mixed_page)
       \<in> set (collect INTERACTIVE_SELECTOR (85 / 100) False mixed_page)
   \<and> outside_viewport (innerWidth mixed_page) (innerHeight mixed_page)
       (boundingClientRect (dom mixed_page ! 1))
   \<and> collect_project (85 / 100) False (innerWidth mixed_page) (innerHeight mixed_page)
       (dom mixed_page ! 1) 1 = None
   \<and> (\<exists>src k. src \<in> set (dom mixed_page)
        \<and> collect_project (85 / 100) False (innerWidth mixed_page) (innerHeight mixed_page) src k
            = Some (hd (collect INTERACTIVE_SELECTOR (85 / 100) False mixed_page))
        \<and> 8 < rect_width (boundingClientRect src))"
proof -
  have pos: "0 < innerWidth mixed_page \<and> 0 < innerHeight mixed_page"
    by (simp add: mixed_page_def page_of_def)
  have "collect INTERACTIVE_SELECTOR (85 / 100) False mixed_page \<noteq> []"
    by code_simp
  then have mem: "hd (collect INTERACTIVE_SELECTOR (85 / 100) False mixed_page)
       \<in> set (collect INTERACTIVE_SELECTOR (85 / 100) False mixed_page)"
    by simp
  have out: "outside_viewport (innerWidth mixed_page) (innerHeight mixed_page)
       (boundingClientRect (dom mixed_page ! 1))"
    by (simp add: mixed_page_def page_of_def element_def outside_viewport_def overlap_width_def
        overlap_height_def rect_right_def rect_bottom_def)
  from geometric_qualification [of mixed_page
      "hd (collect INTERACTIVE_SELECTOR (85 / 100) False mixed_page)" INTERACTIVE_SELECTOR
      "85 / 100" False "dom mixed_page ! 1" 1] pos mem out
  show ?thesis by blast
qed

end
